theory Spec2Isabelle
  imports Main
begin

section \<open>Server side: DatabaseController (QtDataSyncServer/databasecontroller.cpp)\<close>

text \<open>
  A \<open>QUuid\<close> is modelled as a natural number; the null uuid (what \<open>return {}\<close> yields in
  \<open>createIdentity\<close>) is \<open>0\<close>.
\<close>

type_synonym QUuid = nat

definition nullUuid :: QUuid where
  "nullUuid = 0"

text \<open>
  The four tables that \<open>initDatabase\<close> creates. A row of \<open>devices\<close> carries the
  \<open>SERIAL\<close> column \<open>id\<close>, a row of \<open>data\<close> the \<open>SERIAL\<close> column \<open>index\<close>; a row of
  \<open>states\<close> is the pair \<open>(dataindex, deviceid)\<close>, where \<open>deviceid\<close> references
  \<open>devices(id)\<close>. Tables are lists of rows in insertion order, so that a duplicate row
  would be visible: uniqueness is what the statements below enforce, not what the
  carrier type gives for free.
\<close>

record device_row =
  dev_id :: nat
  dev_deviceid :: QUuid
  dev_userid :: QUuid

record data_row =
  dat_index :: nat
  dat_userid :: QUuid
  dat_type :: string
  dat_key :: string
  dat_data :: string

record tables =
  users :: "QUuid list"
  devices :: "device_row list"
  data :: "data_row list"
  states :: "(nat \<times> nat) list"

text \<open>
  The database as one connection sees it: the committed tables, the working copy of an
  open transaction (\<open>None\<close> when no transaction is open: statements then apply to the
  committed tables at once), and the two sequences behind the \<open>SERIAL\<close> columns. The
  sequences are fields of the database and not of the tables: a rollback does not give
  a drawn number back.
\<close>

record database =
  committed :: tables
  work :: "tables option"
  devices_id_seq :: nat
  data_index_seq :: nat

text \<open>
  Every call into the SQL driver that the controller checks can report an error for a
  reason the tables do not determine (a lost connection, a server fault). The calls are
  named after the query objects of the source; \<open>faults\<close> says which of them the driver
  fails.
\<close>

datatype query =
    BeginTransaction
  | CommitTransaction
  | CreateIdentityQuery
  | CreateDeviceQuery
  | IdentifyQuery
  | GetIdQuery
  | UpdateQuery
  | InsertQuery
  | UpdateStateQuery

type_synonym faults = "query \<Rightarrow> bool"

definition current :: "database \<Rightarrow> tables" where
  "current db = (case work db of None \<Rightarrow> committed db | Some t \<Rightarrow> t)"

definition store :: "tables \<Rightarrow> database \<Rightarrow> database" where
  "store t db = (case work db of None \<Rightarrow> db\<lparr>committed := t\<rparr> | Some w \<Rightarrow> db\<lparr>work := Some t\<rparr>)"

text \<open>\<open>db.transaction()\<close>: opens a working copy of the tables.\<close>

definition transaction :: "faults \<Rightarrow> database \<Rightarrow> bool \<times> database" where
  "transaction flt db =
     (if flt BeginTransaction then (False, db)
      else (True, db\<lparr>work := Some (current db)\<rparr>))"

text \<open>\<open>db.rollback()\<close>: drops the working copy. The source ignores its result.\<close>

definition rollback :: "database \<Rightarrow> database" where
  "rollback db = db\<lparr>work := None\<rparr>"

text \<open>
  \<open>db.commit()\<close>: on success the working copy becomes the committed tables. A commit
  that fails ends the transaction without any of its effects.
\<close>

definition commit :: "faults \<Rightarrow> database \<Rightarrow> bool \<times> database" where
  "commit flt db =
     (if flt CommitTransaction then (False, db\<lparr>work := None\<rparr>)
      else (True, db\<lparr>committed := current db, work := None\<rparr>))"

text \<open>
  \<open>INSERT INTO users (identity) VALUES(?)\<close>. \<open>identity\<close> is the primary key: the insert
  fails when the value is present already.
\<close>

definition exec_createIdentityQuery :: "faults \<Rightarrow> QUuid \<Rightarrow> database \<Rightarrow> bool \<times> database" where
  "exec_createIdentityQuery flt identity db =
     (let t = current db in
      if flt CreateIdentityQuery then (False, db)
      else if identity \<in> set (users t) then (False, db)
      else (True, store (t\<lparr>users := users t @ [identity]\<rparr>) db))"

text \<open>
  \<open>INSERT INTO devices (deviceid, userid) VALUES(?, ?)\<close>, with \<open>ON CONFLICT DO NOTHING\<close>
  when \<open>onConflictDoNothing\<close> is set (as in \<open>identify\<close>). The constraint \<open>device_id\<close> makes
  \<open>(deviceid, userid)\<close> unique: on a conflict the plain insert fails and the other one
  succeeds without inserting. \<open>userid\<close> references \<open>users(identity)\<close>.
\<close>

definition exec_createDeviceQuery ::
  "faults \<Rightarrow> bool \<Rightarrow> QUuid \<Rightarrow> QUuid \<Rightarrow> database \<Rightarrow> bool \<times> database" where
  "exec_createDeviceQuery flt onConflictDoNothing deviceId userId db =
     (let t = current db in
      if flt CreateDeviceQuery then (False, db)
      else if \<exists>d \<in> set (devices t). dev_deviceid d = deviceId \<and> dev_userid d = userId
        then (onConflictDoNothing, db)
      else if userId \<notin> set (users t) then (False, db)
      else (True,
        store (t\<lparr>devices := devices t @
                 [\<lparr>dev_id = devices_id_seq db, dev_deviceid = deviceId, dev_userid = userId\<rparr>]\<rparr>)
          (db\<lparr>devices_id_seq := Suc (devices_id_seq db)\<rparr>)))"

text \<open>
  \<open>createIdentity\<close>. \<open>identity\<close> is the value \<open>QUuid::createUuid()\<close> returns in this call.
\<close>

definition createIdentity :: "faults \<Rightarrow> QUuid \<Rightarrow> QUuid \<Rightarrow> database \<Rightarrow> QUuid \<times> database" where
  "createIdentity flt identity deviceId db =
     (let (began, db0) = transaction flt db in
      if \<not> began then (nullUuid, db0)
      else let (ok1, db1) = exec_createIdentityQuery flt identity db0 in
      if \<not> ok1 then (nullUuid, rollback db1)
      else let (ok2, db2) = exec_createDeviceQuery flt False deviceId identity db1 in
      if \<not> ok2 then (nullUuid, rollback db2)
      else let (done, db3) = commit flt db2 in
      if done then (identity, db3) else (nullUuid, db3))"

text \<open>
  \<open>identify\<close>: \<open>SELECT EXISTS(SELECT identity FROM users WHERE identity = ?)\<close>, then the
  device insert with \<open>ON CONFLICT DO NOTHING\<close>. It opens no transaction.
\<close>

definition identify :: "faults \<Rightarrow> QUuid \<Rightarrow> QUuid \<Rightarrow> database \<Rightarrow> bool \<times> database" where
  "identify flt identity deviceId db =
     (if flt IdentifyQuery then (False, db)
      else if identity \<in> set (users (current db)) then
        (let (ok, db1) = exec_createDeviceQuery flt True deviceId identity db in
         if \<not> ok then (False, db1) else (True, db1))
      else (False, db))"

text \<open>The condition \<open>userid = ? AND type = ? AND key = ?\<close> on a row of \<open>data\<close>.\<close>

definition matching :: "QUuid \<Rightarrow> string \<Rightarrow> string \<Rightarrow> data_row \<Rightarrow> bool" where
  "matching userId type key r \<longleftrightarrow> dat_userid r = userId \<and> dat_type r = type \<and> dat_key r = key"

text \<open>
  \<open>SELECT index FROM data WHERE userid = ? AND type = ? AND key = ?\<close>: the indexes of the
  matching rows, in table order; \<open>None\<close> when the driver fails the query.
\<close>

definition exec_getIdQuery ::
  "faults \<Rightarrow> QUuid \<Rightarrow> string \<Rightarrow> string \<Rightarrow> database \<Rightarrow> nat list option" where
  "exec_getIdQuery flt userId type key db =
     (if flt GetIdQuery then None
      else Some (map dat_index (filter (matching userId type key) (data (current db)))))"

text \<open>\<open>UPDATE data SET data = ? WHERE index = ?\<close>: on the rows, and as a statement.\<close>

definition update_data :: "string \<Rightarrow> nat \<Rightarrow> data_row list \<Rightarrow> data_row list" where
  "update_data object index rows =
     map (\<lambda>r. if dat_index r = index then r\<lparr>dat_data := object\<rparr> else r) rows"

definition exec_updateQuery :: "faults \<Rightarrow> string \<Rightarrow> nat \<Rightarrow> database \<Rightarrow> bool \<times> database" where
  "exec_updateQuery flt object index db =
     (let t = current db in
      if flt UpdateQuery then (False, db)
      else (True, store (t\<lparr>data := update_data object index (data t)\<rparr>) db))"

text \<open>
  \<open>INSERT INTO data (userid, type, key, data) VALUES(?, ?, ?, ?) RETURNING index\<close>. The
  constraint \<open>data_id\<close> makes \<open>(userid, type, key)\<close> unique and \<open>userid\<close> references
  \<open>users(identity)\<close>. The result is the returned index, \<open>None\<close> when
  \<open>!insertQuery.exec() || !insertQuery.first()\<close>.
\<close>

definition exec_insertQuery ::
  "faults \<Rightarrow> QUuid \<Rightarrow> string \<Rightarrow> string \<Rightarrow> string \<Rightarrow> database \<Rightarrow> nat option \<times> database" where
  "exec_insertQuery flt userId type key object db =
     (let t = current db in
      if flt InsertQuery then (None, db)
      else if \<exists>r \<in> set (data t). matching userId type key r then (None, db)
      else if userId \<notin> set (users t) then (None, db)
      else (Some (data_index_seq db),
        store (t\<lparr>data := data t @
                 [\<lparr>dat_index = data_index_seq db, dat_userid = userId, dat_type = type,
                   dat_key = key, dat_data = object\<rparr>]\<rparr>)
          (db\<lparr>data_index_seq := Suc (data_index_seq db)\<rparr>)))"

text \<open>
  \<open>ON CONFLICT DO NOTHING\<close> for a list of new rows: a row that is in the table already
  (also one an earlier row of the same statement put there) is skipped.
\<close>

fun insert_do_nothing :: "'a list \<Rightarrow> 'a list \<Rightarrow> 'a list" where
  "insert_do_nothing tbl [] = tbl"
| "insert_do_nothing tbl (r # rs) =
     insert_do_nothing (if r \<in> set tbl then tbl else tbl @ [r]) rs"

text \<open>
  The rows that \<open>SELECT ?, id FROM devices WHERE userid = ? AND deviceid != ?\<close> yields.
\<close>

definition peer_state_rows :: "nat \<Rightarrow> QUuid \<Rightarrow> QUuid \<Rightarrow> tables \<Rightarrow> (nat \<times> nat) list" where
  "peer_state_rows index userId deviceId t =
     map (\<lambda>d. (index, dev_id d))
       (filter (\<lambda>d. dev_userid d = userId \<and> dev_deviceid d \<noteq> deviceId) (devices t))"

text \<open>
  \<open>INSERT INTO states (dataindex, deviceid) SELECT ... ON CONFLICT DO NOTHING\<close>.
  \<open>dataindex\<close> references \<open>data(index)\<close>: a selected row whose index is no row of \<open>data\<close>
  fails the statement. (\<open>deviceid\<close> references \<open>devices(id)\<close>, which every selected row
  satisfies.)
\<close>

definition exec_updateStateQuery ::
  "faults \<Rightarrow> nat \<Rightarrow> QUuid \<Rightarrow> QUuid \<Rightarrow> database \<Rightarrow> bool \<times> database" where
  "exec_updateStateQuery flt index userId deviceId db =
     (let t = current db; rows = peer_state_rows index userId deviceId t in
      if flt UpdateStateQuery then (False, db)
      else if rows \<noteq> [] \<and> index \<notin> set (map dat_index (data t)) then (False, db)
      else (True, store (t\<lparr>states := insert_do_nothing (states t) rows\<rparr>) db))"

text \<open>
  \<open>save\<close>. \<open>object\<close> is \<open>jsonToString(object)\<close>, the compact JSON text that is bound to the
  queries.
\<close>

definition save ::
  "faults \<Rightarrow> QUuid \<Rightarrow> QUuid \<Rightarrow> string \<Rightarrow> string \<Rightarrow> string \<Rightarrow> database \<Rightarrow> bool \<times> database" where
  "save flt userId deviceId type key object db =
     (let (began, db0) = transaction flt db in
      if \<not> began then (False, db0)
      else (case exec_getIdQuery flt userId type key db0 of
        None \<Rightarrow> (False, rollback db0)
      | Some found \<Rightarrow>
          (let (index, db1) =
            (case found of
               i # others \<Rightarrow>
                 (let (ok, dbu) = exec_updateQuery flt object i db0 in
                  (if ok then Some i else None, dbu))
             | [] \<Rightarrow> exec_insertQuery flt userId type key object db0)
           in (case index of
            None \<Rightarrow> (False, rollback db1)
          | Some i \<Rightarrow>
              (let (ok, db2) = exec_updateStateQuery flt i userId deviceId db1 in
               if \<not> ok then (False, rollback db2)
               else (let (done, db3) = commit flt db2 in
                 if done then (True, db3) else (False, db3)))))))"

text \<open>A run without driver faults, and the empty database (both sequences start at 1).\<close>

definition noFaults :: faults where
  "noFaults = (\<lambda>q. False)"

definition emptyDatabase :: database where
  "emptyDatabase =
     \<lparr>committed = \<lparr>users = [], devices = [], data = [], states = []\<rparr>,
      work = None, devices_id_seq = 1, data_index_seq = 1\<rparr>"

text \<open>
  A small history: device 100 registers and becomes user 10, device 200 logs in to the
  same account, then device 200 saves the object \<open>(''todo'', ''42'')\<close>.
\<close>

definition db_registered :: database where
  "db_registered = snd (createIdentity noFaults 10 100 emptyDatabase)"

definition db_two_devices :: database where
  "db_two_devices = snd (identify noFaults 10 200 db_registered)"

definition db_saved_by_200 :: database where
  "db_saved_by_200 = snd (save noFaults 10 200 ''todo'' ''42'' ''{\"a\":1}'' db_two_devices)"


section \<open>Client side: RemoteConnector (src/datasync/remoteconnector.cpp)\<close>

subsection \<open>Values, messages and signals\<close>

text \<open>
  A \<open>QByteArray\<close> (and a \<open>CryptoPP::SecByteBlock\<close>) is a list of bytes; the empty one is
  \<open>[]\<close>. Where the source asks \<open>isNull()\<close> of a byte array (the \<open>trustmac\<close> of a
  \<open>ProofMessage\<close>), the field is an option and \<open>None\<close> is the null array.
\<close>

type_synonym QByteArray = string

text \<open>
  Modelled from the spec: the constant \<open>PingMessage\<close> is declared in \<open>message_p.h\<close>, which
  is not among the files; the spec gives the frame as the single byte \<open>0xFF\<close>.
\<close>

definition PingMessage :: QByteArray where
  "PingMessage = [CHR 0xFF]"

text \<open>One entry of \<open>WelcomeMessage::keyUpdates\<close>: index, scheme, encrypted key, cmac.\<close>

type_synonym KeyUpdate = "nat \<times> QByteArray \<times> QByteArray \<times> QByteArray"

record WelcomeMessage =
  wm_hasChanges :: bool
  wm_keyUpdates :: "KeyUpdate list"

record ProofMessage =
  pm_pNonce :: QByteArray
  pm_deviceId :: QUuid
  pm_deviceName :: string
  pm_signAlgorithm :: QByteArray
  pm_signKey :: QByteArray
  pm_cryptAlgorithm :: QByteArray
  pm_cryptKey :: QByteArray
  pm_macscheme :: QByteArray
  pm_cmac :: QByteArray
  pm_trustmac :: "QByteArray option"

text \<open>
  What \<open>QSharedPointer<AsymmetricCryptoInfo>::create(rng, signAlgorithm, signKey,
  cryptAlgorithm, cryptKey)\<close> holds once the constructor has returned.
\<close>

record AsymmetricCryptoInfo =
  ci_signAlgorithm :: QByteArray
  ci_signKey :: QByteArray
  ci_cryptAlgorithm :: QByteArray
  ci_cryptKey :: QByteArray

text \<open>The messages the modelled functions send, before serialization.\<close>

datatype message =
    MacUpdateMessage nat QByteArray
  | KeyChangeMessage nat
  | AcceptMessage QUuid nat QByteArray QByteArray
  | DenyMessage QUuid

datatype RemoteEvent = RemoteDisconnected | RemoteConnecting | RemoteReady | RemoteReadyWithChanges

datatype signal =
    remoteEvent RemoteEvent
  | loginRequested QUuid string QByteArray
  | prepareAddedData QUuid
  | accountAccessGranted QUuid
  | controllerError string

text \<open>
  The connection state machine is a compiled SCXML chart (\<open>connectorstatemachine.h\<close>),
  which is not among the files. The connector asks it whether a state is active and
  submits events to it; \<open>submitEvent\<close> queues the event, the chart processes it later on
  the event loop. States and events are named as the source names them in
  \<open>isActive(...)\<close> and \<open>submitEvent(...)\<close> (the remaining names are the spec's).
\<close>

datatype sm_state =
    DisconnectedState | ConnectingState | ConnectedState | IdentifyingState
  | RegisteringState | LoggingInState | GrantingState | IdleState | DownloadingState
  | ClosingState | RetryState | ErrorState

datatype sm_event =
    connected_event | disconnected_event | identify_event | awaitRegister_event
  | awaitLogin_event | awaitGranted_event | account_event | close_event | reconnect_event
  | basicError_event | fatalError_event | noConnect_event

text \<open>
  An exception that leaves a function: a \<open>QtDataSync::Exception\<close> (the class the
  \<open>catch(Exception &e)\<close> clauses of the connector catch; \<open>CryptoException\<close> derives from
  it), or an exception of another type.
\<close>

datatype exn = Exception | OtherException

text \<open>
  How a call ends: it returns, an exception leaves it (the state is what the function
  had made of it by then), or it calls a member of the null \<open>_socket\<close>, which C++ leaves
  undefined.
\<close>

datatype 'a outcome = Return 'a | Throw exn 'a | NullSocket

definition andThen :: "'a outcome \<Rightarrow> ('a \<Rightarrow> 'a outcome) \<Rightarrow> 'a outcome" where
  "andThen r f = (case r of Return s \<Rightarrow> f s | Throw e s \<Rightarrow> Throw e s | NullSocket \<Rightarrow> NullSocket)"

text \<open>\<open>try { ... } catch(Exception &e) { ... }\<close>.\<close>

definition catchException :: "'a outcome \<Rightarrow> ('a \<Rightarrow> 'a outcome) \<Rightarrow> 'a outcome" where
  "catchException r handler =
     (case r of
        Return s \<Rightarrow> Return s
      | Throw e s \<Rightarrow> (case e of Exception \<Rightarrow> handler s | OtherException \<Rightarrow> Throw e s)
      | NullSocket \<Rightarrow> NullSocket)"

subsection \<open>The crypto controller\<close>

text \<open>
  The symmetric keys the crypto controller holds: the keys by index (scheme and key
  bytes) and the index of the current one.
\<close>

record CryptoController =
  localCipher :: nat
  ciphers :: "nat \<rightharpoonup> QByteArray \<times> QByteArray"

text \<open>
  What the connector uses and the files do not contain: the primitives of the crypto
  library, the message codec and the helpers of the crypto controller whose result the
  connector only passes on. They are parameters of the model. A helper that can throw
  returns the exception (\<open>Some e\<close>, \<open>Inl e\<close>) instead of its result.
\<close>

record collaborators =
  serializeMessage :: "message \<Rightarrow> QByteArray"
  toRfc4122 :: "QUuid \<Rightarrow> QByteArray"
  signatureData :: "QUuid \<Rightarrow> KeyUpdate \<Rightarrow> QByteArray"
  cmacTag :: "QByteArray \<Rightarrow> QByteArray \<Rightarrow> QByteArray"
  asymDecrypt :: "QByteArray \<Rightarrow> QByteArray option"
  hasKeyUpdate :: "CryptoController \<Rightarrow> bool"
  verifyImportCmac :: "QByteArray \<Rightarrow> QByteArray \<Rightarrow> QByteArray \<Rightarrow> QByteArray \<Rightarrow> exn option"
  checkCryptoInfo :: "AsymmetricCryptoInfo \<Rightarrow> exn option"
  verifyImportCmacForCrypto ::
    "QByteArray \<Rightarrow> QByteArray \<Rightarrow> AsymmetricCryptoInfo \<Rightarrow> QByteArray \<Rightarrow> exn option"
  encryptSecretKey ::
    "CryptoController \<Rightarrow> AsymmetricCryptoInfo \<Rightarrow> exn + (nat \<times> QByteArray \<times> QByteArray)"
  ownFingerprint :: "AsymmetricCryptoInfo \<Rightarrow> QByteArray"
  clientErrorCanRecover :: bool

text \<open>
  Modelled from the spec: \<open>CryptoController::keyIndex\<close>, the index of the current key.
  The connector calls it, and with it \<open>verifyCmac\<close>, \<open>decryptSecretKey\<close> and
  \<open>generateEncryptionKeyCmac\<close>; the \<open>cryptocontroller.cpp\<close> among the files defines none
  of them. The spec: the symmetric
  secret is versioned by an integer key index; a CMAC tag over the raw key bytes is the
  proof of possession (\<open>generateEncryptionKeyCmac\<close>: the tag over the current key); on
  \<open>Welcome\<close> the client verifies each cmac against the immediately preceding key,
  decrypts, and installs the highest index as current. The call in \<open>onWelcome\<close> passes
  \<open>false\<close> as the last argument of \<open>decryptSecretKey\<close> under the comment "import the key
  and set active if newer", and names \<open>keyIndex()\<close> "the key before this one": with
  \<open>false\<close> the decrypted key is kept under its index and becomes the current one when
  its index is above the current index. \<open>onGrant\<close> passes \<open>true\<close> for the key a new
  device is granted: it becomes the current one.
\<close>

definition keyIndex :: "CryptoController \<Rightarrow> nat" where
  "keyIndex c = localCipher c"

text \<open>
  Modelled from the spec: \<open>CryptoController::verifyCmac(index, data, mac)\<close>, absent from
  the files. It throws unless \<open>mac\<close> is the tag of \<open>data\<close> under the key with that index.
\<close>

definition verifyCmac ::
  "collaborators \<Rightarrow> CryptoController \<Rightarrow> nat \<Rightarrow> QByteArray \<Rightarrow> QByteArray \<Rightarrow> exn option" where
  "verifyCmac ops c index msgData mac =
     (case ciphers c index of
        None \<Rightarrow> Some Exception
      | Some (scheme, key) \<Rightarrow> if cmacTag ops key msgData = mac then None else Some Exception)"

text \<open>
  Modelled from the spec: \<open>CryptoController::decryptSecretKey(index, scheme, cipher, flag)\<close>,
  absent from the files. It throws when the secret does not decrypt; otherwise the key is
  kept under \<open>index\<close>, and it becomes the current key when the flag is set (\<open>onGrant\<close>)
  or when \<open>index\<close> is above the current index (what the comment at the call in
  \<open>onWelcome\<close> says of the call with \<open>false\<close>).
\<close>

definition decryptSecretKey ::
  "collaborators \<Rightarrow> CryptoController \<Rightarrow> nat \<Rightarrow> QByteArray \<Rightarrow> QByteArray \<Rightarrow> bool \<Rightarrow>
     exn + CryptoController" where
  "decryptSecretKey ops c index scheme cipher flag =
     (case asymDecrypt ops cipher of
        None \<Rightarrow> Inl Exception
      | Some key \<Rightarrow>
          Inr (c\<lparr>ciphers := (ciphers c)(index \<mapsto> (scheme, key)),
                 localCipher := (if flag \<or> localCipher c < index then index
                                 else localCipher c)\<rparr>))"

text \<open>
  Modelled from the spec: \<open>CryptoController::generateEncryptionKeyCmac()\<close>, absent from the
  files: the tag over the bytes of the current key; it throws when there is no such key.
\<close>

definition generateEncryptionKeyCmac :: "collaborators \<Rightarrow> CryptoController \<Rightarrow> exn + QByteArray" where
  "generateEncryptionKeyCmac ops c =
     (case ciphers c (localCipher c) of
        None \<Rightarrow> Inl Exception
      | Some (scheme, key) \<Rightarrow> Inr (cmacTag ops key key))"

subsection \<open>The connector\<close>

text \<open>
  A single-shot timer the connector has started, by the slot it will call: the lambda of
  \<open>retry()\<close>, or the lambda of \<open>onProof\<close> for a device.
\<close>

datatype timer_slot = retryTimer | proofTimer QUuid

text \<open>
  The members of \<open>RemoteConnector\<close> that the modelled functions read or write. \<open>socket\<close>
  is \<open>None\<close> for a null \<open>_socket\<close> and holds the frames sent on the socket otherwise.
  \<open>pingTimer\<close> is the time until the keepalive timer fires, \<open>None\<close> while it is
  stopped. \<open>smActive\<close> is the state of the chart that \<open>isActive\<close> reports, \<open>smEvents\<close> the
  events submitted to it. \<open>sendCmac\<close> is the persisted setting \<open>keySendCmac\<close> (\<open>None\<close>:
  not stored). \<open>timers\<close> lists the single-shot timers started (delay in seconds).
  \<open>emitted\<close> lists the signals emitted. \<open>thisDeviceId\<close> is the member \<open>_deviceId\<close>.
\<close>

record connector =
  socket :: "QByteArray list option"
  pingInterval :: int
  pingTimer :: "int option"
  awaitingPing :: bool
  smActive :: sm_state
  smEvents :: "sm_event list"
  retryIndex :: int
  expectChanges :: bool
  thisDeviceId :: QUuid
  exportsCache :: "QByteArray \<rightharpoonup> QByteArray"
  activeProofs :: "QUuid \<rightharpoonup> AsymmetricCryptoInfo"
  sendCmac :: "bool option"
  cryptoController :: CryptoController
  timers :: "(int \<times> timer_slot) list"
  emitted :: "signal list"

definition submitEvent :: "sm_event \<Rightarrow> connector \<Rightarrow> connector" where
  "submitEvent e s = s\<lparr>smEvents := smEvents s @ [e]\<rparr>"

definition emit :: "signal \<Rightarrow> connector \<Rightarrow> connector" where
  "emit sig s = s\<lparr>emitted := emitted s @ [sig]\<rparr>"

definition singleShot :: "int \<Rightarrow> timer_slot \<Rightarrow> connector \<Rightarrow> connector" where
  "singleShot secs slot s = s\<lparr>timers := timers s @ [(secs, slot)]\<rparr>"

definition isIdle :: "connector \<Rightarrow> bool" where
  "isIdle s \<longleftrightarrow> smActive s = IdleState"

text \<open>\<open>_socket->sendBinaryMessage(...)\<close> and \<open>sendMessage\<close>.\<close>

definition sendBinaryMessage :: "QByteArray \<Rightarrow> connector \<Rightarrow> connector outcome" where
  "sendBinaryMessage frame s =
     (case socket s of
        None \<Rightarrow> NullSocket
      | Some sent \<Rightarrow> Return (s\<lparr>socket := Some (sent @ [frame])\<rparr>))"

definition sendMessage :: "collaborators \<Rightarrow> message \<Rightarrow> connector \<Rightarrow> connector outcome" where
  "sendMessage ops m s = sendBinaryMessage (serializeMessage ops m) s"

text \<open>\<open>triggerError\<close>, and the slot that \<open>initialize\<close> connects to \<open>specialOperationTimeout\<close>.\<close>

definition triggerError :: "bool \<Rightarrow> connector \<Rightarrow> connector" where
  "triggerError canRecover s =
     (if canRecover then submitEvent basicError_event s else submitEvent fatalError_event s)"

definition specialOperationTimeout :: "connector \<Rightarrow> connector" where
  "specialOperationTimeout s = triggerError True s"

definition reconnect :: "connector \<Rightarrow> connector" where
  "reconnect s = submitEvent reconnect_event s"

text \<open>
  \<open>onError\<close> for a client error the connector makes up itself
  (\<open>{ErrorMessage::ClientError, e.qWhat()}\<close>). Whether such a message can be recovered
  from is the default of the \<open>ErrorMessage\<close> constructor, which is not among the files:
  the parameter \<open>clientErrorCanRecover\<close>.
\<close>

definition onClientError :: "collaborators \<Rightarrow> connector \<Rightarrow> connector" where
  "onClientError ops s =
     (let s1 = triggerError (clientErrorCanRecover ops) s in
      if \<not> clientErrorCanRecover ops
      then emit (controllerError ''Internal application error. Check the logs for details.'') s1
      else s1)"

text \<open>The keepalive slot \<open>ping\<close>.\<close>

definition ping :: "connector \<Rightarrow> connector outcome" where
  "ping s =
     (if awaitingPing s then Return (reconnect (s\<lparr>awaitingPing := False\<rparr>))
      else sendBinaryMessage PingMessage (s\<lparr>awaitingPing := True\<rparr>))"

text \<open>
  \<open>binaryMessageReceived\<close>: the keepalive reply is handled first; every other frame goes
  to the deserialization and the dispatch by message name, the parameter \<open>dispatch\<close>.
\<close>

definition binaryMessageReceived ::
  "(QByteArray \<Rightarrow> connector \<Rightarrow> connector outcome) \<Rightarrow> QByteArray \<Rightarrow> connector \<Rightarrow>
     connector outcome" where
  "binaryMessageReceived dispatch frame s =
     (if frame = PingMessage
      then Return (s\<lparr>awaitingPing := False, pingTimer := Some (pingInterval s)\<rparr>)
      else dispatch frame s)"

text \<open>The back-off schedule, in seconds, and \<open>retry\<close>.\<close>

definition Timeouts :: "int list" where
  "Timeouts = [5, 10, 30, 60, 300]"

text \<open>
  \<open>retry\<close> returns the delay. \<open>Timeouts[_retryIndex++]\<close> with a negative index is out of
  range (\<open>QVector\<close> asserts): \<open>None\<close>.
\<close>

definition retry :: "connector \<Rightarrow> (int \<times> connector) option" where
  "retry s =
     (if retryIndex s \<ge> int (length Timeouts)
      then Some (last Timeouts, singleShot (last Timeouts) retryTimer s)
      else if retryIndex s < 0 then None
      else Some (Timeouts ! nat (retryIndex s),
        singleShot (Timeouts ! nat (retryIndex s)) retryTimer (s\<lparr>retryIndex := retryIndex s + 1\<rparr>)))"

text \<open>The lambda that \<open>retry\<close> hands to the timer.\<close>

definition retryTimeout :: "connector \<Rightarrow> connector" where
  "retryTimeout s = (if retryIndex s \<noteq> 0 then reconnect s else s)"

text \<open>\<open>scheduleRetry\<close>, the entry action of the state \<open>Retry\<close>: \<open>retry()\<close> and a log line.\<close>

definition scheduleRetry :: "connector \<Rightarrow> (int \<times> connector) option" where
  "scheduleRetry s = retry s"

text \<open>\<open>n\<close> entries of \<open>Retry\<close> in a row: the delays scheduled, in order.\<close>

fun scheduleRetries :: "nat \<Rightarrow> connector \<Rightarrow> (int list \<times> connector) option" where
  "scheduleRetries 0 s = Some ([], s)"
| "scheduleRetries (Suc n) s =
     (case scheduleRetry s of
        None \<Rightarrow> None
      | Some (d, s1) \<Rightarrow>
          (case scheduleRetries n s1 of
             None \<Rightarrow> None
           | Some (ds, s2) \<Rightarrow> Some (d # ds, s2)))"

text \<open>\<open>initKeyUpdate\<close> and \<open>onEntryIdleState\<close>, the entry action of the state \<open>Idle\<close>.\<close>

definition initKeyUpdate :: "collaborators \<Rightarrow> connector \<Rightarrow> connector outcome" where
  "initKeyUpdate ops s =
     (if \<not> isIdle s then Return s
      else catchException
        (sendMessage ops (KeyChangeMessage (keyIndex (cryptoController s) + 1)) s)
        (\<lambda>s1. Return (onClientError ops s1)))"

definition onEntryIdleState :: "collaborators \<Rightarrow> connector \<Rightarrow> connector outcome" where
  "onEntryIdleState ops s =
     andThen
       (let s0 = s\<lparr>retryIndex := 0\<rparr> in
        if hasKeyUpdate ops (cryptoController s0) then initKeyUpdate ops s0 else Return s0)
       (\<lambda>s1. if expectChanges s1
              then Return (emit (remoteEvent RemoteReadyWithChanges) (s1\<lparr>expectChanges := False\<rparr>))
              else Return (emit (remoteEvent RemoteReady) s1))"

text \<open>\<open>sendKeyUpdate\<close>.\<close>

definition sendKeyUpdate :: "collaborators \<Rightarrow> connector \<Rightarrow> connector outcome" where
  "sendKeyUpdate ops s =
     (let s1 = s\<lparr>sendCmac := Some True\<rparr> in
      case generateEncryptionKeyCmac ops (cryptoController s1) of
        Inl e \<Rightarrow> Throw e s1
      | Inr mac \<Rightarrow> sendMessage ops (MacUpdateMessage (keyIndex (cryptoController s1)) mac) s1)"

text \<open>\<open>sValue(keySendCmac).toBool()\<close>: the stored value, \<open>false\<close> when none is stored.\<close>

definition sValue_sendCmac :: "connector \<Rightarrow> bool" where
  "sValue_sendCmac s = (case sendCmac s of None \<Rightarrow> False | Some b \<Rightarrow> b)"

text \<open>
  The loop of \<open>onWelcome\<close> over \<open>message.keyUpdates\<close>, on the flag \<open>keyUpdated\<close> and the
  crypto controller: it stops at the first exception.
\<close>

fun keyUpdateLoop ::
  "collaborators \<Rightarrow> QUuid \<Rightarrow> KeyUpdate list \<Rightarrow> bool \<times> CryptoController \<Rightarrow>
     exn option \<times> bool \<times> CryptoController" where
  "keyUpdateLoop ops dev [] (keyUpdated, c) = (None, keyUpdated, c)"
| "keyUpdateLoop ops dev (keyUpdate # rest) (keyUpdated, c) =
     (case verifyCmac ops c (keyIndex c) (signatureData ops dev keyUpdate)
             (snd (snd (snd keyUpdate))) of
        Some e \<Rightarrow> (Some e, keyUpdated, c)
      | None \<Rightarrow>
          (case decryptSecretKey ops c (fst keyUpdate) (fst (snd keyUpdate))
                  (fst (snd (snd keyUpdate))) False of
             Inl e \<Rightarrow> (Some e, keyUpdated, c)
           | Inr c1 \<Rightarrow> keyUpdateLoop ops dev rest (True, c1)))"

definition onWelcome :: "collaborators \<Rightarrow> WelcomeMessage \<Rightarrow> connector \<Rightarrow> connector outcome" where
  "onWelcome ops m s =
     (if smActive s \<noteq> LoggingInState then Return (triggerError True s)
      else
        (let s1 = submitEvent account_event (s\<lparr>expectChanges := wm_hasChanges m\<rparr>) in
         case keyUpdateLoop ops (thisDeviceId s1) (wm_keyUpdates m) (False, cryptoController s1) of
           (Some e, keyUpdated, c) \<Rightarrow> Throw e (s1\<lparr>cryptoController := c\<rparr>)
         | (None, keyUpdated, c) \<Rightarrow>
             (let s2 = s1\<lparr>cryptoController := c\<rparr> in
              if keyUpdated \<or> sValue_sendCmac s2 then sendKeyUpdate ops s2 else Return s2)))"

text \<open>
  The claim's words for that loop, to compare it with: each entry's cmac is the tag of
  the entry's signature data under the key that precedes the entry (for the first
  entry the key that was current when the message came, for every other entry the
  decrypted key of the entry before it), and each entry's secret decrypts.
\<close>

fun eachVerifiedUnderPrecedingKey ::
  "collaborators \<Rightarrow> QUuid \<Rightarrow> QByteArray \<Rightarrow> KeyUpdate list \<Rightarrow> bool" where
  "eachVerifiedUnderPrecedingKey ops dev preceding [] = True"
| "eachVerifiedUnderPrecedingKey ops dev preceding (keyUpdate # rest) =
     (snd (snd (snd keyUpdate)) = cmacTag ops preceding (signatureData ops dev keyUpdate) \<and>
      (case asymDecrypt ops (fst (snd (snd keyUpdate))) of
         None \<Rightarrow> False
       | Some key \<Rightarrow> eachVerifiedUnderPrecedingKey ops dev key rest))"

text \<open>
  \<open>exportAccount\<close>, as far as the connector's state goes: \<open>nonce\<close> is the block the random
  number generator fills \<open>data.pNonce\<close> with and \<open>key\<close> the key \<open>generateExportKey\<close>
  returns.
\<close>

definition exportAccount :: "QByteArray \<Rightarrow> QByteArray \<Rightarrow> connector \<Rightarrow> connector outcome" where
  "exportAccount nonce key s =
     (if thisDeviceId s = nullUuid then Throw Exception s
      else Return (s\<lparr>exportsCache := (exportsCache s)(nonce \<mapsto> key)\<rparr>))"

text \<open>\<open>loginReply\<close>.\<close>

definition loginReply :: "collaborators \<Rightarrow> QUuid \<Rightarrow> bool \<Rightarrow> connector \<Rightarrow> connector outcome" where
  "loginReply ops dev accept s =
     (if \<not> isIdle s then Return s
      else catchException
        (case activeProofs s dev of
           None \<Rightarrow> Return s
         | Some crypto \<Rightarrow>
             (let s1 = s\<lparr>activeProofs := (activeProofs s)(dev := None)\<rparr> in
              if accept then
                (case encryptSecretKey ops (cryptoController s1) crypto of
                   Inl e \<Rightarrow> Throw e s1
                 | Inr (index, scheme, secret) \<Rightarrow>
                     andThen (sendMessage ops (AcceptMessage dev index scheme secret) s1)
                       (\<lambda>s2. Return (emit (accountAccessGranted dev) (emit (prepareAddedData dev) s2))))
              else sendMessage ops (DenyMessage dev) s1))
        (\<lambda>s1. sendMessage ops (DenyMessage dev) s1))"

text \<open>The lambda \<open>onProof\<close> hands to its ten-minute timer.\<close>

definition proofTimeout :: "collaborators \<Rightarrow> QUuid \<Rightarrow> connector \<Rightarrow> connector outcome" where
  "proofTimeout ops dev s =
     (case activeProofs s dev of
        None \<Rightarrow> Return s
      | Some crypto \<Rightarrow> sendMessage ops (DenyMessage dev) (s\<lparr>activeProofs := (activeProofs s)(dev := None)\<rparr>))"

text \<open>
  \<open>onProof\<close>: the body of the \<open>try\<close> block first. \<open>_exportsCache.take\<close> removes the entry
  and returns its key, or an empty key when there is none.
\<close>

definition onProof_try :: "collaborators \<Rightarrow> ProofMessage \<Rightarrow> connector \<Rightarrow> connector outcome" where
  "onProof_try ops m s =
     (let key = (case exportsCache s (pm_pNonce m) of None \<Rightarrow> [] | Some k \<Rightarrow> k);
          s1 = s\<lparr>exportsCache := (exportsCache s)(pm_pNonce m := None)\<rparr>;
          macData = pm_pNonce m @ toRfc4122 ops (thisDeviceId s1) @ pm_macscheme m;
          cryptInfo = \<lparr>ci_signAlgorithm = pm_signAlgorithm m, ci_signKey = pm_signKey m,
                       ci_cryptAlgorithm = pm_cryptAlgorithm m, ci_cryptKey = pm_cryptKey m\<rparr>
      in
      if key = [] then Throw Exception s1
      else case verifyImportCmac ops (pm_macscheme m) key macData (pm_cmac m) of
        Some e \<Rightarrow> Throw e s1
      | None \<Rightarrow>
         (case checkCryptoInfo ops cryptInfo of
            Some e \<Rightarrow> Throw e s1
          | None \<Rightarrow>
             (case (case pm_trustmac m of
                      None \<Rightarrow> None
                    | Some t \<Rightarrow> verifyImportCmacForCrypto ops (pm_macscheme m) key cryptInfo t) of
                Some e \<Rightarrow> Throw e s1
              | None \<Rightarrow>
                 (let s2 = s1\<lparr>activeProofs := (activeProofs s1)(pm_deviceId m \<mapsto> cryptInfo)\<rparr> in
                  andThen
                    (if pm_trustmac m \<noteq> None then loginReply ops (pm_deviceId m) True s2
                     else Return (emit (loginRequested (pm_deviceId m) (pm_deviceName m)
                                          (ownFingerprint ops cryptInfo)) s2))
                    (\<lambda>s3. Return (singleShot 600 (proofTimer (pm_deviceId m)) s3))))))"

definition onProof :: "collaborators \<Rightarrow> ProofMessage \<Rightarrow> connector \<Rightarrow> connector outcome" where
  "onProof ops m s =
     (if \<not> isIdle s then Return (triggerError True s)
      else catchException (onProof_try ops m s)
             (\<lambda>s1. sendMessage ops (DenyMessage (pm_deviceId m)) s1))"

section \<open>Client side: WsRemoteConnector (src/datasync/wsremoteconnector.cpp)\<close>

text \<open>
  The connector that keeps its connection state in the member \<open>state\<close>. Its settings, as
  \<open>reconnect\<close> reads them: \<open>None\<close> is a key that is not stored (the default applies); for
  \<open>remoteUrl\<close>, \<open>None\<close> is a url that is not valid.
\<close>

datatype ws_state = Disconnected | Connecting | Identifying | Idle | Reloading | Operating | Closing

record ws_settings =
  remoteUrl :: "string option"
  remoteEnabled :: "bool option"
  sharedSecret :: "string option"
  verifyPeer :: "bool option"
  headers :: "(string \<times> QByteArray) list"

text \<open>
  A \<open>QWebSocket\<close> the connector has made: the protocol name it was constructed with,
  whether peer verification was switched off, the request it was opened with (url and
  raw headers), whether \<open>close()\<close> has been called on it, and whether \<open>reconnect\<close> is
  connected to its \<open>destroyed\<close> signal.
\<close>

record ws_socket =
  protocolName :: string
  verifyNone :: bool
  openedWith :: "(string \<times> (string \<times> QByteArray) list) option"
  closeCalled :: bool
  reconnectOnDestroyed :: bool

datatype ws_signal =
    clearAuthenticationError
  | remoteStateChanged RemoteEvent

record ws_connector =
  ws_socket :: "ws_socket option"
  ws_settings :: ws_settings
  ws_state :: ws_state
  ws_retryIndex :: int
  ws_emitted :: "ws_signal list"

definition ws_emit :: "ws_signal \<Rightarrow> ws_connector \<Rightarrow> ws_connector" where
  "ws_emit sig s = s\<lparr>ws_emitted := ws_emitted s @ [sig]\<rparr>"

definition ws_reconnect :: "ws_connector \<Rightarrow> ws_connector" where
  "ws_reconnect s =
     (if ws_state s = Connecting \<or> ws_state s = Closing then s
      else case ws_socket s of
        Some sock \<Rightarrow>
          s\<lparr>ws_state := Closing,
            ws_socket := Some (sock\<lparr>reconnectOnDestroyed := True, closeCalled := True\<rparr>)\<rparr>
      | None \<Rightarrow>
          (let s1 = ws_emit (remoteStateChanged RemoteConnecting)
                      ((ws_emit clearAuthenticationError s)\<lparr>ws_state := Connecting\<rparr>);
               enabled = (case remoteEnabled (ws_settings s1) of None \<Rightarrow> True | Some b \<Rightarrow> b)
           in case remoteUrl (ws_settings s1) of
             None \<Rightarrow> ws_emit (remoteStateChanged RemoteDisconnected) (s1\<lparr>ws_state := Disconnected\<rparr>)
           | Some url \<Rightarrow>
               if \<not> enabled
               then ws_emit (remoteStateChanged RemoteDisconnected) (s1\<lparr>ws_state := Disconnected\<rparr>)
               else s1\<lparr>ws_socket := Some
                 \<lparr>protocolName = (case sharedSecret (ws_settings s1) of
                                     None \<Rightarrow> ''QtDataSync'' | Some secret \<Rightarrow> secret),
                  verifyNone = (case verifyPeer (ws_settings s1) of None \<Rightarrow> False | Some b \<Rightarrow> \<not> b),
                  openedWith = Some (url, headers (ws_settings s1)),
                  closeCalled = False,
                  reconnectOnDestroyed = False\<rparr>\<rparr>))"


section \<open>Concrete inputs\<close>

text \<open>
  Collaborators for concrete runs: the tag of a key over some data is the key followed by
  the data, decryption is the identity, and every check of the import handshake passes
  but the one for the trustmac \<open>''forged''\<close>.
\<close>

definition exampleOps :: collaborators where
  "exampleOps =
     \<lparr>serializeMessage = (\<lambda>m. case m of
          MacUpdateMessage i mac \<Rightarrow> ''MacUpdate:'' @ mac
        | KeyChangeMessage i \<Rightarrow> ''KeyChange''
        | AcceptMessage dev i scheme secret \<Rightarrow> ''Accept:'' @ secret
        | DenyMessage dev \<Rightarrow> ''Deny''),
      toRfc4122 = (\<lambda>u. replicate u CHR ''u''),
      signatureData = (\<lambda>dev keyUpdate. fst (snd (snd keyUpdate))),
      cmacTag = (\<lambda>key msgData. key @ msgData),
      asymDecrypt = (\<lambda>cipher. Some cipher),
      hasKeyUpdate = (\<lambda>c. False),
      verifyImportCmac = (\<lambda>scheme key macData mac. None),
      checkCryptoInfo = (\<lambda>info. None),
      verifyImportCmacForCrypto =
        (\<lambda>scheme key info mac. if mac = ''forged'' then Some Exception else None),
      encryptSecretKey = (\<lambda>c info. Inr (localCipher c, ''AES'', ''secret-for-'' @ ci_cryptKey info)),
      ownFingerprint = (\<lambda>info. ci_signKey info @ ci_cryptKey info),
      clientErrorCanRecover = True\<rparr>"

text \<open>
  A connector that is logged in as device 100 and idle, holding key 0, with one export
  pending for the nonce \<open>''nonce''\<close>.
\<close>

definition idleConnector :: connector where
  "idleConnector =
     \<lparr>socket = Some [], pingInterval = 60000, pingTimer = Some 60000, awaitingPing = False,
      smActive = IdleState, smEvents = [], retryIndex = 0, expectChanges = False,
      thisDeviceId = 100,
      exportsCache = [''nonce'' \<mapsto> ''exportkey''], activeProofs = Map.empty,
      sendCmac = None,
      cryptoController = \<lparr>localCipher = 0, ciphers = [0 \<mapsto> (''AES'', ''k0'')]\<rparr>,
      timers = [], emitted = []\<rparr>"

text \<open>The same connector while it waits for the \<open>Welcome\<close> of the server.\<close>

definition loggingInConnector :: connector where
  "loggingInConnector = idleConnector\<lparr>smActive := LoggingInState\<rparr>"

text \<open>A proof for the pending export, from device 300, without and with a trustmac.\<close>

definition untrustedProof :: ProofMessage where
  "untrustedProof =
     \<lparr>pm_pNonce = ''nonce'', pm_deviceId = 300, pm_deviceName = ''phone'',
      pm_signAlgorithm = ''ECDSA'', pm_signKey = ''spk'', pm_cryptAlgorithm = ''RSA'',
      pm_cryptKey = ''cpk'', pm_macscheme = ''mac'', pm_cmac = ''tag'', pm_trustmac = None\<rparr>"

definition trustedProof :: ProofMessage where
  "trustedProof = untrustedProof\<lparr>pm_trustmac := Some ''trusted''\<rparr>"

text \<open>A \<open>WsRemoteConnector\<close> in the middle of a connection attempt.\<close>

definition wsConnecting :: ws_connector where
  "wsConnecting =
     \<lparr>ws_socket = Some \<lparr>protocolName = ''QtDataSync'', verifyNone = False,
                         openedWith = Some (''wss://example.org'', []), closeCalled = False,
                         reconnectOnDestroyed = False\<rparr>,
      ws_settings = \<lparr>remoteUrl = Some ''wss://example.org'', remoteEnabled = None,
                     sharedSecret = None, verifyPeer = None, headers = []\<rparr>,
      ws_state = Connecting, ws_retryIndex = 2, ws_emitted = []\<rparr>"

text \<open>The idle connector after it has handled \<open>untrustedProof\<close>.\<close>

definition askedConnector :: connector where
  "askedConnector =
     idleConnector
       \<lparr>exportsCache := Map.empty,
        activeProofs := [300 \<mapsto> \<lparr>ci_signAlgorithm = ''ECDSA'', ci_signKey = ''spk'',
                                   ci_cryptAlgorithm = ''RSA'', ci_cryptKey = ''cpk''\<rparr>],
        timers := [(600, proofTimer 300)],
        emitted := [loginRequested 300 ''phone'' ''spkcpk'']\<rparr>"

text \<open>
  A \<open>Welcome\<close> with the keys 1 and 2: the cmac of key 1 is its tag under key 0, the cmac
  of key 2 its tag under key 1.
\<close>

definition welcomeTwoKeys :: WelcomeMessage where
  "welcomeTwoKeys =
     \<lparr>wm_hasChanges = True,
      wm_keyUpdates = [(1, ''AES'', ''k1'', ''k0k1''), (2, ''AES'', ''k2'', ''k1k2'')]\<rparr>"

text \<open>
  A connector that waits for the \<open>Welcome\<close> while it holds key 5, and a \<open>Welcome\<close> with the
  older key 3, whose cmac is its tag under key 5.
\<close>

definition olderKeyConnector :: connector where
  "olderKeyConnector =
     loggingInConnector
       \<lparr>cryptoController := \<lparr>localCipher = 5, ciphers = [5 \<mapsto> (''AES'', ''k5'')]\<rparr>\<rparr>"

definition welcomeOlderKey :: WelcomeMessage where
  "welcomeOlderKey =
     \<lparr>wm_hasChanges = True, wm_keyUpdates = [(3, ''AES'', ''k3'', ''k5k3'')]\<rparr>"

section \<open>Properties of the database controller\<close>

lemma db_registered_eq:
  "db_registered =
     \<lparr>committed = \<lparr>users = [10], devices = [\<lparr>dev_id = 1, dev_deviceid = 100, dev_userid = 10\<rparr>],
                   data = [], states = []\<rparr>,
      work = None, devices_id_seq = 2, data_index_seq = 1\<rparr>"
  by (simp add: db_registered_def createIdentity_def transaction_def exec_createIdentityQuery_def
      exec_createDeviceQuery_def commit_def rollback_def current_def store_def noFaults_def
      emptyDatabase_def nullUuid_def Let_def)


subsection \<open>\<open>ON CONFLICT DO NOTHING\<close>\<close>

lemma set_insert_do_nothing:
  "set (insert_do_nothing tbl rs) = set tbl \<union> set rs"
  by (induction rs arbitrary: tbl) auto

lemma distinct_insert_do_nothing:
  "distinct tbl \<Longrightarrow> distinct (insert_do_nothing tbl rs)"
  by (induction rs arbitrary: tbl) auto

lemma count_list_distinct_member:
  "distinct xs \<Longrightarrow> x \<in> set xs \<Longrightarrow> count_list xs x = 1"
  by (induction xs) auto

lemma count_list_insert_do_nothing_new:
  "distinct tbl \<Longrightarrow> x \<in> set rs \<Longrightarrow> count_list (insert_do_nothing tbl rs) x = 1"
  by (simp add: count_list_distinct_member distinct_insert_do_nothing set_insert_do_nothing)

lemma count_list_insert_do_nothing_other:
  "x \<notin> set rs \<Longrightarrow> count_list (insert_do_nothing tbl rs) x = count_list tbl x"
  by (induction rs arbitrary: tbl) auto

lemma insert_do_nothing_present:
  "set rs \<subseteq> set tbl \<Longrightarrow> insert_do_nothing tbl rs = tbl"
  by (induction rs arbitrary: tbl) auto

lemma insert_do_nothing_twice:
  "insert_do_nothing (insert_do_nothing tbl rs) rs = insert_do_nothing tbl rs"
  by (rule insert_do_nothing_present) (simp add: set_insert_do_nothing)

subsection \<open>What a \<open>save\<close> that returns \<open>true\<close> has done\<close>

lemma dat_index_update_data:
  "dat_index ` set (update_data obj i rows) = dat_index ` set rows"
  by (induction rows) (auto simp: update_data_def)

lemma matching_update_data:
  "map dat_index (filter (matching u ty k) (update_data obj i rows)) =
   map dat_index (filter (matching u ty k) rows)"
  by (induction rows) (auto simp: update_data_def matching_def)

lemma save_existing:
  assumes "work db = None"
    and "filter (matching u ty k) (data (committed db)) = r # rest"
  shows "save flt u w ty k obj db =
     (if flt BeginTransaction then (False, db)
      else if flt GetIdQuery \<or> flt UpdateQuery \<or> flt UpdateStateQuery \<or> flt CommitTransaction
        then (False, db)
      else (True, db\<lparr>committed := (committed db)
        \<lparr>data := update_data obj (dat_index r) (data (committed db)),
         states := insert_do_nothing (states (committed db))
                     (peer_state_rows (dat_index r) u w (committed db))\<rparr>\<rparr>))"
proof -
  have "r \<in> set (filter (matching u ty k) (data (committed db)))"
    using assms(2) by simp
  then have r: "r \<in> set (data (committed db))"
    by simp
  have idx: "dat_index r \<in> dat_index ` set (data (committed db))"
    using r by simp
  have same: "db\<lparr>work := None\<rparr> = db"
    using assms(1) by simp
  show ?thesis
    using assms idx same
    by (simp add: save_def transaction_def exec_getIdQuery_def exec_updateQuery_def
        exec_updateStateQuery_def commit_def rollback_def current_def store_def
        peer_state_rows_def dat_index_update_data Let_def)
qed

lemma save_fresh:
  assumes "work db = None"
    and "filter (matching u ty k) (data (committed db)) = []"
  shows "save flt u w ty k obj db =
     (if flt BeginTransaction then (False, db)
      else if flt GetIdQuery \<or> flt InsertQuery \<or> u \<notin> set (users (committed db))
        then (False, db)
      else if flt UpdateStateQuery \<or> flt CommitTransaction
        then (False, db\<lparr>data_index_seq := Suc (data_index_seq db)\<rparr>)
      else (True, db\<lparr>committed := (committed db)
        \<lparr>data := data (committed db) @
           [\<lparr>dat_index = data_index_seq db, dat_userid = u, dat_type = ty, dat_key = k,
             dat_data = obj\<rparr>],
         states := insert_do_nothing (states (committed db))
                     (peer_state_rows (data_index_seq db) u w (committed db))\<rparr>,
         data_index_seq := Suc (data_index_seq db)\<rparr>))"
proof -
  have none: "\<forall>x \<in> set (data (committed db)). \<not> matching u ty k x"
    using assms(2) by (simp add: filter_empty_conv)
  have same: "db\<lparr>work := None\<rparr> = db"
    using assms(1) by simp
  show ?thesis
    using assms none same
    by (simp add: save_def transaction_def exec_getIdQuery_def exec_insertQuery_def
        exec_updateStateQuery_def commit_def rollback_def current_def store_def
        peer_state_rows_def Let_def)
qed


lemma createIdentity_closed:
  assumes "work db = None"
  shows "createIdentity flt identity deviceId db =
     (if flt BeginTransaction then (nullUuid, db)
      else if flt CreateIdentityQuery \<or> identity \<in> set (users (committed db)) then (nullUuid, db)
      else if flt CreateDeviceQuery \<or>
          (\<exists>d \<in> set (devices (committed db)). dev_deviceid d = deviceId \<and> dev_userid d = identity)
        then (nullUuid, db)
      else if flt CommitTransaction
        then (nullUuid, db\<lparr>devices_id_seq := Suc (devices_id_seq db)\<rparr>)
      else (identity, db\<lparr>committed := (committed db)
        \<lparr>users := users (committed db) @ [identity],
         devices := devices (committed db) @
           [\<lparr>dev_id = devices_id_seq db, dev_deviceid = deviceId, dev_userid = identity\<rparr>]\<rparr>,
         devices_id_seq := Suc (devices_id_seq db)\<rparr>))"
proof -
  have same: "db\<lparr>work := None\<rparr> = db"
    using assms by simp
  show ?thesis
    using assms same
    by (auto simp: createIdentity_def transaction_def exec_createIdentityQuery_def
        exec_createDeviceQuery_def commit_def rollback_def current_def store_def Let_def)
qed

lemma identify_closed:
  assumes "work db = None"
  shows "identify flt identity deviceId db =
     (if flt IdentifyQuery \<or> identity \<notin> set (users (committed db)) \<or> flt CreateDeviceQuery
        then (False, db)
      else if \<exists>d \<in> set (devices (committed db)). dev_deviceid d = deviceId \<and> dev_userid d = identity
        then (True, db)
      else (True, db\<lparr>committed := (committed db)
        \<lparr>devices := devices (committed db) @
           [\<lparr>dev_id = devices_id_seq db, dev_deviceid = deviceId, dev_userid = identity\<rparr>]\<rparr>,
         devices_id_seq := Suc (devices_id_seq db)\<rparr>))"
  using assms
  by (auto simp: identify_def exec_createDeviceQuery_def current_def store_def Let_def)

lemma db_two_devices_eq:
  "db_two_devices =
     \<lparr>committed = \<lparr>users = [10],
        devices = [\<lparr>dev_id = 1, dev_deviceid = 100, dev_userid = 10\<rparr>,
                   \<lparr>dev_id = 2, dev_deviceid = 200, dev_userid = 10\<rparr>],
        data = [], states = []\<rparr>,
      work = None, devices_id_seq = 3, data_index_seq = 1\<rparr>"
  by (simp add: db_two_devices_def db_registered_eq identify_closed noFaults_def)

lemma db_saved_by_200_eq:
  "db_saved_by_200 =
     \<lparr>committed = \<lparr>users = [10],
        devices = [\<lparr>dev_id = 1, dev_deviceid = 100, dev_userid = 10\<rparr>,
                   \<lparr>dev_id = 2, dev_deviceid = 200, dev_userid = 10\<rparr>],
        data = [\<lparr>dat_index = 1, dat_userid = 10, dat_type = ''todo'', dat_key = ''42'',
                 dat_data = ''{\"a\":1}''\<rparr>],
        states = [(1, 1)]\<rparr>,
      work = None, devices_id_seq = 3, data_index_seq = 2\<rparr>"
  by (simp add: db_saved_by_200_def db_two_devices_eq save_fresh noFaults_def
      peer_state_rows_def)


lemma update_data_member:
  "r \<in> set rows \<Longrightarrow> r\<lparr>dat_data := obj\<rparr> \<in> set (update_data obj (dat_index r) rows)"
  by (induction rows) (auto simp: update_data_def)

lemma peer_state_rows_devices:
  "devices t' = devices t \<Longrightarrow> peer_state_rows i u w t' = peer_state_rows i u w t"
  by (simp add: peer_state_rows_def)

lemma peer_state_rows_member:
  "d \<in> set (devices t) \<Longrightarrow> dev_userid d = u \<Longrightarrow> dev_deviceid d \<noteq> w \<Longrightarrow>
   (i, dev_id d) \<in> set (peer_state_rows i u w t)"
  by (auto simp: peer_state_rows_def)

lemma save_success:
  assumes closed: "work db = None"
    and ok: "save flt u w ty k obj db = (True, db')"
  obtains idx where "work db' = None"
    and "users (committed db') = users (committed db)"
    and "devices (committed db') = devices (committed db)"
    and "states (committed db') =
           insert_do_nothing (states (committed db)) (peer_state_rows idx u w (committed db))"
    and "\<exists>r \<in> set (data (committed db')). dat_index r = idx \<and> matching u ty k r \<and> dat_data r = obj"
    and "\<exists>r rest. filter (matching u ty k) (data (committed db')) = r # rest \<and> dat_index r = idx"
proof (cases "filter (matching u ty k) (data (committed db))")
  case Nil
  let ?new = "\<lparr>dat_index = data_index_seq db, dat_userid = u, dat_type = ty, dat_key = k,
                dat_data = obj\<rparr>"
  have db': "db' = db\<lparr>committed := (committed db)
        \<lparr>data := data (committed db) @ [?new],
         states := insert_do_nothing (states (committed db))
                     (peer_state_rows (data_index_seq db) u w (committed db))\<rparr>,
         data_index_seq := Suc (data_index_seq db)\<rparr>"
    using ok by (simp add: save_fresh [OF closed Nil] split: if_splits)
  have m: "matching u ty k ?new"
    by (simp add: matching_def)
  show ?thesis
  proof (rule that [of "data_index_seq db"])
    show "work db' = None"
      using closed by (simp add: db')
    show "\<exists>r \<in> set (data (committed db')).
        dat_index r = data_index_seq db \<and> matching u ty k r \<and> dat_data r = obj"
      using m by (simp add: db')
    show "\<exists>r rest. filter (matching u ty k) (data (committed db')) = r # rest \<and>
        dat_index r = data_index_seq db"
      using m Nil by (simp add: db')
  qed (simp_all add: db')
next
  case (Cons r rest)
  have db': "db' = db\<lparr>committed := (committed db)
        \<lparr>data := update_data obj (dat_index r) (data (committed db)),
         states := insert_do_nothing (states (committed db))
                     (peer_state_rows (dat_index r) u w (committed db))\<rparr>\<rparr>"
    using ok by (simp add: save_existing [OF closed Cons] split: if_splits)
  have "r \<in> set (filter (matching u ty k) (data (committed db)))"
    using Cons by simp
  then have r: "r \<in> set (data (committed db))" and m: "matching u ty k r"
    by simp_all
  have m': "matching u ty k (r\<lparr>dat_data := obj\<rparr>)"
    using m by (simp add: matching_def)
  have "map dat_index (filter (matching u ty k) (data (committed db'))) =
      dat_index r # map dat_index rest"
    by (simp add: db' matching_update_data Cons)
  then have hd: "\<exists>r' rest'. filter (matching u ty k) (data (committed db')) = r' # rest' \<and>
      dat_index r' = dat_index r"
    by (auto simp: map_eq_Cons_conv)
  show ?thesis
  proof (rule that [of "dat_index r"])
    show "work db' = None"
      using closed by (simp add: db')
    show "\<exists>x \<in> set (data (committed db')).
        dat_index x = dat_index r \<and> matching u ty k x \<and> dat_data x = obj"
    proof (rule bexI [of _ "r\<lparr>dat_data := obj\<rparr>"])
      show "dat_index (r\<lparr>dat_data := obj\<rparr>) = dat_index r \<and>
          matching u ty k (r\<lparr>dat_data := obj\<rparr>) \<and> dat_data (r\<lparr>dat_data := obj\<rparr>) = obj"
        using m' by simp
      show "r\<lparr>dat_data := obj\<rparr> \<in> set (data (committed db'))"
        using update_data_member [OF r, of obj] by (simp add: db')
    qed
    show "\<exists>r' rest'. filter (matching u ty k) (data (committed db')) = r' # rest' \<and>
        dat_index r' = dat_index r"
      by (rule hd)
  qed (simp_all add: db')
qed

lemma save_replay:
  assumes closed: "work db = None"
    and first: "save flt u w ty k obj db = (True, db')"
    and again: "save flt' u w ty k obj' db' = (True, db'')"
  shows "states (committed db'') = states (committed db')"
proof -
  from closed first obtain idx where
    closed': "work db' = None"
    and "users (committed db') = users (committed db)"
    and dev: "devices (committed db') = devices (committed db)"
    and st: "states (committed db') =
           insert_do_nothing (states (committed db)) (peer_state_rows idx u w (committed db))"
    and "\<exists>r \<in> set (data (committed db')). dat_index r = idx \<and> matching u ty k r \<and> dat_data r = obj"
    and hd: "\<exists>r rest. filter (matching u ty k) (data (committed db')) = r # rest \<and> dat_index r = idx"
    by (rule save_success)
  from hd obtain r rest where
    f: "filter (matching u ty k) (data (committed db')) = r # rest" and i: "dat_index r = idx"
    by blast
  have "states (committed db'') =
      insert_do_nothing (states (committed db')) (peer_state_rows idx u w (committed db'))"
    using again by (auto simp: save_existing [OF closed' f] i split: if_splits)
  also have "\<dots> = states (committed db')"
    by (simp add: st peer_state_rows_devices [OF dev] insert_do_nothing_twice)
  finally show ?thesis .
qed


lemma save_failure_rolled_back:
  assumes "work db = None"
  shows "\<not> fst (save flt u w ty k obj db) \<longrightarrow>
     committed (snd (save flt u w ty k obj db)) = committed db \<and>
     work (snd (save flt u w ty k obj db)) = None"
proof (cases "filter (matching u ty k) (data (committed db))")
  case Nil
  show ?thesis
    using assms by (simp add: save_fresh [OF assms Nil])
next
  case (Cons r rest)
  show ?thesis
    using assms by (simp add: save_existing [OF assms Cons])
qed

lemma save_succeeds_iff:
  assumes "work db = None"
  shows "fst (save flt u w ty k obj db) \<longleftrightarrow>
     \<not> (flt BeginTransaction \<or> flt GetIdQuery \<or>
        (filter (matching u ty k) (data (committed db)) \<noteq> [] \<and> flt UpdateQuery) \<or>
        (filter (matching u ty k) (data (committed db)) = [] \<and>
           (flt InsertQuery \<or> u \<notin> set (users (committed db)))) \<or>
        flt UpdateStateQuery \<or> flt CommitTransaction)"
proof (cases "filter (matching u ty k) (data (committed db))")
  case Nil
  show ?thesis
    by (simp add: save_fresh [OF assms Nil] Nil)
next
  case (Cons r rest)
  show ?thesis
    by (simp add: save_existing [OF assms Cons] Cons)
qed

lemma save_devices_unchanged:
  assumes "work db = None"
  shows "devices (committed (snd (save flt u w ty k obj db))) = devices (committed db)"
proof (cases "filter (matching u ty k) (data (committed db))")
  case Nil
  show ?thesis
    by (simp add: save_fresh [OF assms Nil])
next
  case (Cons r rest)
  show ?thesis
    by (simp add: save_existing [OF assms Cons])
qed

text \<open>
  C7. \<open>createIdentity\<close> and \<open>save\<close> are atomic. With no transaction open before the call:
  whenever the begin of the transaction, one of the query steps (by a driver error or by
  a constraint of the schema) or the commit fails, \<open>createIdentity\<close> returns the null
  uuid, \<open>save\<close> returns \<open>false\<close>, the committed tables are what they were and no
  transaction is left open; when no step fails, \<open>createIdentity\<close> returns the new
  identity with the user and the device row committed together, and \<open>save\<close> returns
  \<open>true\<close>. So the result is a success exactly when every step succeeded.
\<close>

theorem createIdentity_save_atomic:
  assumes "work db = None"
  shows
    "((flt BeginTransaction \<or> flt CreateIdentityQuery \<or> identity \<in> set (users (committed db)) \<or>
       flt CreateDeviceQuery \<or>
       (\<exists>d \<in> set (devices (committed db)). dev_deviceid d = deviceId \<and> dev_userid d = identity) \<or>
       flt CommitTransaction) \<longrightarrow>
        fst (createIdentity flt identity deviceId db) = nullUuid \<and>
        committed (snd (createIdentity flt identity deviceId db)) = committed db \<and>
        work (snd (createIdentity flt identity deviceId db)) = None) \<and>
     (\<not> (flt BeginTransaction \<or> flt CreateIdentityQuery \<or> identity \<in> set (users (committed db)) \<or>
       flt CreateDeviceQuery \<or>
       (\<exists>d \<in> set (devices (committed db)). dev_deviceid d = deviceId \<and> dev_userid d = identity) \<or>
       flt CommitTransaction) \<longrightarrow>
        fst (createIdentity flt identity deviceId db) = identity \<and>
        committed (snd (createIdentity flt identity deviceId db)) = (committed db)
          \<lparr>users := users (committed db) @ [identity],
           devices := devices (committed db) @
             [\<lparr>dev_id = devices_id_seq db, dev_deviceid = deviceId, dev_userid = identity\<rparr>]\<rparr> \<and>
        work (snd (createIdentity flt identity deviceId db)) = None) \<and>
     (fst (save flt u w ty k obj db) \<longleftrightarrow>
        \<not> (flt BeginTransaction \<or> flt GetIdQuery \<or>
          (filter (matching u ty k) (data (committed db)) \<noteq> [] \<and> flt UpdateQuery) \<or>
          (filter (matching u ty k) (data (committed db)) = [] \<and>
             (flt InsertQuery \<or> u \<notin> set (users (committed db)))) \<or>
          flt UpdateStateQuery \<or> flt CommitTransaction)) \<and>
     (\<not> fst (save flt u w ty k obj db) \<longrightarrow>
        committed (snd (save flt u w ty k obj db)) = committed db \<and>
        work (snd (save flt u w ty k obj db)) = None)"
proof -
  have create_fail:
    "(flt BeginTransaction \<or> flt CreateIdentityQuery \<or> identity \<in> set (users (committed db)) \<or>
       flt CreateDeviceQuery \<or>
       (\<exists>d \<in> set (devices (committed db)). dev_deviceid d = deviceId \<and> dev_userid d = identity) \<or>
       flt CommitTransaction) \<longrightarrow>
        fst (createIdentity flt identity deviceId db) = nullUuid \<and>
        committed (snd (createIdentity flt identity deviceId db)) = committed db \<and>
        work (snd (createIdentity flt identity deviceId db)) = None"
    using assms by (simp add: createIdentity_closed [OF assms])
  have create_ok:
    "\<not> (flt BeginTransaction \<or> flt CreateIdentityQuery \<or> identity \<in> set (users (committed db)) \<or>
       flt CreateDeviceQuery \<or>
       (\<exists>d \<in> set (devices (committed db)). dev_deviceid d = deviceId \<and> dev_userid d = identity) \<or>
       flt CommitTransaction) \<longrightarrow>
        fst (createIdentity flt identity deviceId db) = identity \<and>
        committed (snd (createIdentity flt identity deviceId db)) = (committed db)
          \<lparr>users := users (committed db) @ [identity],
           devices := devices (committed db) @
             [\<lparr>dev_id = devices_id_seq db, dev_deviceid = deviceId, dev_userid = identity\<rparr>]\<rparr> \<and>
        work (snd (createIdentity flt identity deviceId db)) = None"
    using assms by (auto simp: createIdentity_closed [OF assms])
  show ?thesis
    using create_fail create_ok save_succeeds_iff [OF assms, of flt u w ty k obj]
      save_failure_rolled_back [OF assms, of flt u w ty k obj]
    by blast
qed

theorem createIdentity_save_atomic_witness:
  "work db_two_devices = None \<and>
   createIdentity (\<lambda>q. q = CreateDeviceQuery \<or> q = UpdateStateQuery) 11 300 db_two_devices =
     (nullUuid, db_two_devices) \<and>
   \<not> fst (save (\<lambda>q. q = CreateDeviceQuery \<or> q = UpdateStateQuery) 10 200 ''todo'' ''42'' ''{}''
          db_two_devices) \<and>
   committed (snd (save (\<lambda>q. q = CreateDeviceQuery \<or> q = UpdateStateQuery) 10 200 ''todo'' ''42'' ''{}''
          db_two_devices)) = committed db_two_devices"
proof -
  have closed: "work db_two_devices = None"
    by (simp add: db_two_devices_eq)
  have create: "createIdentity (\<lambda>q. q = CreateDeviceQuery \<or> q = UpdateStateQuery) 11 300
      db_two_devices = (nullUuid, db_two_devices)"
    by (simp add: createIdentity_closed [OF closed])
  show ?thesis
    using closed create
      createIdentity_save_atomic [OF closed,
        of "\<lambda>q. q = CreateDeviceQuery \<or> q = UpdateStateQuery" 11 300 10 200 "''todo''" "''42''" "''{}''"]
    by simp
qed


text \<open>
  C4. \<open>identify(identity, deviceId)\<close>, with no transaction open. If no \<open>users\<close> row has
  that identity it returns \<open>false\<close> and leaves the database as it is. If the user exists
  and the driver fails neither query, it returns \<open>true\<close> and a device row for
  \<open>(deviceId, identity)\<close> exists afterwards: the row that was there already (nothing is
  inserted then), or one new row. Whenever it returns \<open>false\<close> the database is unchanged,
  and the only row it ever adds is the row of \<open>deviceId\<close> for \<open>identity\<close>. The other
  two operations add a device row only on their own success: \<open>createIdentity\<close> that
  returns the null uuid (for a non-null fresh identity) and \<open>save\<close> leave \<open>devices\<close>
  unchanged.
\<close>

theorem identify_device_rows:
  assumes "work db = None"
  shows
    "(identity \<notin> set (users (committed db)) \<longrightarrow>
        identify flt identity deviceId db = (False, db)) \<and>
     (identity \<in> set (users (committed db)) \<and> \<not> flt IdentifyQuery \<and> \<not> flt CreateDeviceQuery \<longrightarrow>
        fst (identify flt identity deviceId db) \<and>
        (\<exists>d \<in> set (devices (committed (snd (identify flt identity deviceId db)))).
           dev_deviceid d = deviceId \<and> dev_userid d = identity) \<and>
        (devices (committed (snd (identify flt identity deviceId db))) = devices (committed db) \<or>
         devices (committed (snd (identify flt identity deviceId db))) = devices (committed db) @
           [\<lparr>dev_id = devices_id_seq db, dev_deviceid = deviceId, dev_userid = identity\<rparr>])) \<and>
     ((\<exists>d \<in> set (devices (committed db)). dev_deviceid d = deviceId \<and> dev_userid d = identity) \<longrightarrow>
        snd (identify flt identity deviceId db) = db) \<and>
     (\<not> fst (identify flt identity deviceId db) \<longrightarrow> snd (identify flt identity deviceId db) = db) \<and>
     (\<forall>d \<in> set (devices (committed (snd (identify flt identity deviceId db)))).
        d \<in> set (devices (committed db)) \<or>
        (fst (identify flt identity deviceId db) \<and> dev_deviceid d = deviceId \<and> dev_userid d = identity)) \<and>
     (fst (createIdentity flt identity deviceId db) = nullUuid \<and> identity \<noteq> nullUuid \<longrightarrow>
        devices (committed (snd (createIdentity flt identity deviceId db))) = devices (committed db)) \<and>
     devices (committed (snd (save flt identity deviceId ty k obj db))) = devices (committed db)"
proof -
  have absent: "identity \<notin> set (users (committed db)) \<longrightarrow>
      identify flt identity deviceId db = (False, db)"
    by (simp add: identify_closed [OF assms])
  have member: "identity \<in> set (users (committed db)) \<and> \<not> flt IdentifyQuery \<and>
      \<not> flt CreateDeviceQuery \<longrightarrow>
        fst (identify flt identity deviceId db) \<and>
        (\<exists>d \<in> set (devices (committed (snd (identify flt identity deviceId db)))).
           dev_deviceid d = deviceId \<and> dev_userid d = identity) \<and>
        (devices (committed (snd (identify flt identity deviceId db))) = devices (committed db) \<or>
         devices (committed (snd (identify flt identity deviceId db))) = devices (committed db) @
           [\<lparr>dev_id = devices_id_seq db, dev_deviceid = deviceId, dev_userid = identity\<rparr>])"
    by (simp add: identify_closed [OF assms])
  have present: "(\<exists>d \<in> set (devices (committed db)).
      dev_deviceid d = deviceId \<and> dev_userid d = identity) \<longrightarrow>
        snd (identify flt identity deviceId db) = db"
    by (simp add: identify_closed [OF assms])
  have failed: "\<not> fst (identify flt identity deviceId db) \<longrightarrow>
      snd (identify flt identity deviceId db) = db"
    by (simp add: identify_closed [OF assms])
  have only: "\<forall>d \<in> set (devices (committed (snd (identify flt identity deviceId db)))).
        d \<in> set (devices (committed db)) \<or>
        (fst (identify flt identity deviceId db) \<and> dev_deviceid d = deviceId \<and> dev_userid d = identity)"
    by (simp add: identify_closed [OF assms])
  have create: "fst (createIdentity flt identity deviceId db) = nullUuid \<and> identity \<noteq> nullUuid \<longrightarrow>
        devices (committed (snd (createIdentity flt identity deviceId db))) = devices (committed db)"
    by (simp add: createIdentity_closed [OF assms])
  show ?thesis
    using absent member present failed only create
      save_devices_unchanged [OF assms, of flt identity deviceId ty k obj]
    by blast
qed

theorem identify_device_rows_witness:
  "work db_registered = None \<and>
   identify noFaults 11 200 db_registered = (False, db_registered) \<and>
   identify noFaults 10 200 db_registered = (True, db_two_devices) \<and>
   identify noFaults 10 200 db_two_devices = (True, db_two_devices)"
proof -
  have closed: "work db_registered = None"
    by (simp add: db_registered_eq)
  have closed2: "work db_two_devices = None"
    by (simp add: db_two_devices_eq)
  have login: "identify noFaults 10 200 db_registered = (True, db_two_devices)"
    by (simp add: identify_closed [OF closed] noFaults_def) (simp add: db_registered_eq db_two_devices_eq)
  have again: "identify noFaults 10 200 db_two_devices = (True, db_two_devices)"
    by (simp add: identify_closed [OF closed2] noFaults_def) (simp add: db_two_devices_eq)
  show ?thesis
    using closed login again identify_device_rows [OF closed, of 11 noFaults 200]
    by (simp add: db_registered_eq)
qed


text \<open>
  C1, as the claim states it, fails: after device 200 has saved \<open>(''todo'', ''42'')\<close>, a
  \<open>states\<close> row for device 100 (device row 1) is pending; when device 100 then saves the
  same key, the save succeeds and the \<open>states\<close> row \<open>(1, 1)\<close>, which references the
  saved data row and the writer's own device row, is still there, next to the new row
  \<open>(1, 2)\<close> for the peer.
\<close>

theorem save_writer_state_counterexample:
  "fst (save noFaults 10 100 ''todo'' ''42'' ''{\"a\":2}'' db_saved_by_200) \<and>
   devices (committed (snd (save noFaults 10 100 ''todo'' ''42'' ''{\"a\":2}'' db_saved_by_200))) =
     [\<lparr>dev_id = 1, dev_deviceid = 100, dev_userid = 10\<rparr>,
      \<lparr>dev_id = 2, dev_deviceid = 200, dev_userid = 10\<rparr>] \<and>
   data (committed (snd (save noFaults 10 100 ''todo'' ''42'' ''{\"a\":2}'' db_saved_by_200))) =
     [\<lparr>dat_index = 1, dat_userid = 10, dat_type = ''todo'', dat_key = ''42'',
       dat_data = ''{\"a\":2}''\<rparr>] \<and>
   states (committed (snd (save noFaults 10 100 ''todo'' ''42'' ''{\"a\":2}'' db_saved_by_200))) =
     [(1, 1), (1, 2)]"
proof -
  have closed: "work db_saved_by_200 = None"
    by (simp add: db_saved_by_200_eq)
  have found: "filter (matching 10 ''todo'' ''42'') (data (committed db_saved_by_200)) =
      \<lparr>dat_index = 1, dat_userid = 10, dat_type = ''todo'', dat_key = ''42'',
        dat_data = ''{\"a\":1}''\<rparr> # []"
    by (simp add: db_saved_by_200_eq matching_def)
  show ?thesis
    by (simp add: save_existing [OF closed found] noFaults_def)
      (simp add: db_saved_by_200_eq update_data_def peer_state_rows_def)
qed

text \<open>
  C1, amended. For a \<open>save\<close> that returns \<open>true\<close> (no transaction open before, and the
  primary key of \<open>states\<close> holding before): the saved data row exists with some index
  \<open>idx\<close>; every device row of the user whose \<open>deviceid\<close> differs from the writer's has
  exactly one \<open>states\<close> row \<open>(idx, id)\<close>; every other \<open>states\<close> row is there as often as
  before, so the save adds no row but the peers' (a row of the writer is there afterwards
  only if it was pending before); and a second successful \<open>save\<close> of the same key by the
  same writer leaves \<open>states\<close> as the first one left it.
\<close>

theorem save_enqueues_peer_states:
  assumes "work db = None"
    and "distinct (states (committed db))"
    and "save flt u w ty k obj db = (True, db')"
  shows "\<exists>idx.
     (\<exists>r \<in> set (data (committed db')). dat_index r = idx \<and> matching u ty k r \<and> dat_data r = obj) \<and>
     (\<forall>d \<in> set (devices (committed db')). dev_userid d = u \<and> dev_deviceid d \<noteq> w \<longrightarrow>
        count_list (states (committed db')) (idx, dev_id d) = 1) \<and>
     (\<forall>row. row \<notin> set (peer_state_rows idx u w (committed db')) \<longrightarrow>
        count_list (states (committed db')) row = count_list (states (committed db)) row) \<and>
     (\<forall>flt' obj' db''. save flt' u w ty k obj' db' = (True, db'') \<longrightarrow>
        states (committed db'') = states (committed db'))"
proof -
  from assms(1) assms(3) obtain idx where
    closed': "work db' = None"
    and "users (committed db') = users (committed db)"
    and dev: "devices (committed db') = devices (committed db)"
    and st: "states (committed db') =
           insert_do_nothing (states (committed db)) (peer_state_rows idx u w (committed db))"
    and row: "\<exists>r \<in> set (data (committed db')). dat_index r = idx \<and> matching u ty k r \<and> dat_data r = obj"
    and "\<exists>r rest. filter (matching u ty k) (data (committed db')) = r # rest \<and> dat_index r = idx"
    by (rule save_success)
  have peers: "\<forall>d \<in> set (devices (committed db')). dev_userid d = u \<and> dev_deviceid d \<noteq> w \<longrightarrow>
        count_list (states (committed db')) (idx, dev_id d) = 1"
  proof (intro ballI impI)
    fix d
    assume d: "d \<in> set (devices (committed db'))" and p: "dev_userid d = u \<and> dev_deviceid d \<noteq> w"
    have "(idx, dev_id d) \<in> set (peer_state_rows idx u w (committed db))"
      using d p dev by (simp add: peer_state_rows_member)
    then show "count_list (states (committed db')) (idx, dev_id d) = 1"
      using assms(2) by (simp add: st count_list_insert_do_nothing_new)
  qed
  have others: "\<forall>row. row \<notin> set (peer_state_rows idx u w (committed db')) \<longrightarrow>
        count_list (states (committed db')) row = count_list (states (committed db)) row"
    by (simp add: st peer_state_rows_devices [OF dev] count_list_insert_do_nothing_other)
  have replay: "\<forall>flt' obj' db''. save flt' u w ty k obj' db' = (True, db'') \<longrightarrow>
        states (committed db'') = states (committed db')"
    using save_replay [OF assms(1) assms(3)] by blast
  show ?thesis
    using row peers others replay by blast
qed

theorem save_enqueues_peer_states_witness:
  "work db_two_devices = None \<and>
   distinct (states (committed db_two_devices)) \<and>
   save noFaults 10 200 ''todo'' ''42'' ''{\"a\":1}'' db_two_devices = (True, db_saved_by_200) \<and>
   count_list (states (committed db_saved_by_200)) (1, 1) = 1 \<and>
   count_list (states (committed db_saved_by_200)) (1, 2) = 0"
proof -
  have closed: "work db_two_devices = None"
    by (simp add: db_two_devices_eq)
  have pk: "distinct (states (committed db_two_devices))"
    by (simp add: db_two_devices_eq)
  have none: "filter (matching 10 ''todo'' ''42'') (data (committed db_two_devices)) = []"
    by (simp add: db_two_devices_eq)
  have ok: "fst (save noFaults 10 200 ''todo'' ''42'' ''{\"a\":1}'' db_two_devices)"
    by (simp add: save_fresh [OF closed none] noFaults_def) (simp add: db_two_devices_eq)
  have run: "save noFaults 10 200 ''todo'' ''42'' ''{\"a\":1}'' db_two_devices = (True, db_saved_by_200)"
    using ok by (simp add: db_saved_by_200_def prod_eq_iff)
  show ?thesis
    using closed pk run save_enqueues_peer_states [OF closed pk run]
    by (simp add: db_saved_by_200_eq)
qed


subsection \<open>What the three operations keep\<close>

text \<open>
  The hypotheses of the theorems above hold in every state the controller reaches from
  the empty database: each operation leaves no transaction open, and the primary key of
  \<open>states\<close> survives each of them.
\<close>

lemma operations_leave_no_transaction:
  assumes "work db = None"
  shows "work (snd (createIdentity flt identity dev db)) = None"
    and "work (snd (identify flt identity dev db)) = None"
    and "work (snd (save flt u dev ty k obj db)) = None"
proof -
  show "work (snd (createIdentity flt identity dev db)) = None"
    using assms by (simp add: createIdentity_closed [OF assms])
  show "work (snd (identify flt identity dev db)) = None"
    using assms by (simp add: identify_closed [OF assms])
  show "work (snd (save flt u dev ty k obj db)) = None"
  proof (cases "filter (matching u ty k) (data (committed db))")
    case Nil
    show ?thesis
      using assms by (simp add: save_fresh [OF assms Nil])
  next
    case (Cons r rest)
    show ?thesis
      using assms by (simp add: save_existing [OF assms Cons])
  qed
qed

lemma operations_keep_states_key:
  assumes "work db = None" and "distinct (states (committed db))"
  shows "distinct (states (committed (snd (createIdentity flt identity dev db))))"
    and "distinct (states (committed (snd (identify flt identity dev db))))"
    and "distinct (states (committed (snd (save flt u dev ty k obj db))))"
proof -
  show "distinct (states (committed (snd (createIdentity flt identity dev db))))"
    using assms(2) by (simp add: createIdentity_closed [OF assms(1)])
  show "distinct (states (committed (snd (identify flt identity dev db))))"
    using assms(2) by (simp add: identify_closed [OF assms(1)])
  show "distinct (states (committed (snd (save flt u dev ty k obj db))))"
  proof (cases "filter (matching u ty k) (data (committed db))")
    case Nil
    show ?thesis
      using assms(2) by (simp add: save_fresh [OF assms(1) Nil] distinct_insert_do_nothing)
  next
    case (Cons r rest)
    show ?thesis
      using assms(2) by (simp add: save_existing [OF assms(1) Cons] distinct_insert_do_nothing)
  qed
qed

lemma emptyDatabase_wellformed:
  "work emptyDatabase = None \<and> distinct (states (committed emptyDatabase))"
  by (simp add: emptyDatabase_def)

section \<open>Properties of the connectors\<close>

subsection \<open>Operation timeout\<close>

text \<open>
  C3, as the claim states it, fails: the slot connected to \<open>specialOperationTimeout\<close>
  calls \<open>triggerError(true)\<close>; on the idle connector the one event it submits is
  \<open>basicError\<close>, and no \<open>fatalError\<close> is submitted.
\<close>

theorem specialOperationTimeout_counterexample:
  "smEvents (specialOperationTimeout idleConnector) = [basicError_event] \<and>
   fatalError_event \<notin> set (smEvents (specialOperationTimeout idleConnector))"
  by (simp add: specialOperationTimeout_def triggerError_def submitEvent_def idleConnector_def)

text \<open>
  C3, amended. When \<open>specialOperationTimeout\<close> fires, the connector calls
  \<open>triggerError(true)\<close>: it submits the event \<open>basicError\<close> (the recoverable error) to the
  connection state machine and changes nothing else. \<open>fatalError\<close> is what
  \<open>triggerError(false)\<close> submits.
\<close>

theorem specialOperationTimeout_basicError:
  "specialOperationTimeout s = triggerError True s \<and>
   specialOperationTimeout s = s\<lparr>smEvents := smEvents s @ [basicError_event]\<rparr> \<and>
   triggerError False s = s\<lparr>smEvents := smEvents s @ [fatalError_event]\<rparr>"
  by (simp add: specialOperationTimeout_def triggerError_def submitEvent_def)

subsection \<open>Keepalive\<close>

text \<open>
  C8. On a tick of the keepalive timer with the flag clear (and a socket), \<open>ping\<close> sets
  the flag and sends the \<open>Ping\<close> frame. A \<open>Ping\<close> frame received clears the flag and
  starts the timer anew, whatever the rest of the dispatch would do. On a tick with the
  flag set, \<open>ping\<close> clears the flag and calls \<open>reconnect()\<close>, which submits the event
  \<open>reconnect\<close>. So two ticks in a row without a reply send one \<open>Ping\<close> and then
  reconnect.
\<close>

theorem keepalive_two_ticks:
  "(\<not> awaitingPing s \<and> socket s = Some sent \<longrightarrow>
      ping s = Return (s\<lparr>awaitingPing := True, socket := Some (sent @ [PingMessage])\<rparr>)) \<and>
   binaryMessageReceived dispatch PingMessage s =
      Return (s\<lparr>awaitingPing := False, pingTimer := Some (pingInterval s)\<rparr>) \<and>
   (awaitingPing s \<longrightarrow>
      ping s = Return (reconnect (s\<lparr>awaitingPing := False\<rparr>)) \<and>
      ping s = Return (s\<lparr>awaitingPing := False, smEvents := smEvents s @ [reconnect_event]\<rparr>)) \<and>
   (\<not> awaitingPing s \<and> socket s = Some sent \<longrightarrow>
      andThen (ping s) ping =
        Return (s\<lparr>awaitingPing := False, socket := Some (sent @ [PingMessage]),
                  smEvents := smEvents s @ [reconnect_event]\<rparr>))"
  by (simp add: ping_def binaryMessageReceived_def sendBinaryMessage_def reconnect_def
      submitEvent_def andThen_def)

theorem keepalive_two_ticks_witness:
  "\<not> awaitingPing idleConnector \<and> socket idleConnector = Some [] \<and>
   ping idleConnector = Return (idleConnector\<lparr>awaitingPing := True, socket := Some [PingMessage]\<rparr>) \<and>
   awaitingPing (idleConnector\<lparr>awaitingPing := True, socket := Some [PingMessage]\<rparr>) \<and>
   ping (idleConnector\<lparr>awaitingPing := True, socket := Some [PingMessage]\<rparr>) =
     Return (idleConnector\<lparr>awaitingPing := False, socket := Some [PingMessage],
               smEvents := [reconnect_event]\<rparr>)"
proof -
  let ?waiting = "idleConnector\<lparr>awaitingPing := True, socket := Some [PingMessage]\<rparr>"
  have clear: "\<not> awaitingPing idleConnector \<and> socket idleConnector = Some []"
    by (simp add: idleConnector_def)
  have set: "awaitingPing ?waiting"
    by simp
  have none: "smEvents idleConnector = []"
    by (simp add: idleConnector_def)
  have first: "ping idleConnector = Return ?waiting"
    using clear keepalive_two_ticks [where s = idleConnector and sent = "[]"
        and dispatch = "\<lambda>frame c. Return c"]
    by simp
  have second: "ping ?waiting =
      Return (?waiting\<lparr>awaitingPing := False, smEvents := smEvents ?waiting @ [reconnect_event]\<rparr>)"
    using set keepalive_two_ticks [where s = ?waiting and sent = "[]"
        and dispatch = "\<lambda>frame c. Return c"]
    by blast
  show ?thesis
    using clear set first second none by simp
qed

subsection \<open>Reconnect\<close>

text \<open>
  C9. \<open>WsRemoteConnector::reconnect()\<close> in the state \<open>Connecting\<close> or \<open>Closing\<close> returns
  at once: the connector (state, socket, retry index, signals) is what it was.
  \<open>RemoteConnector::reconnect()\<close> itself touches neither the socket, the retry index, the
  timers nor what the chart reports as active: it only submits the event \<open>reconnect\<close>.
\<close>

theorem reconnect_noop_while_connecting_or_closing:
  "(ws_state w = Connecting \<or> ws_state w = Closing \<longrightarrow> ws_reconnect w = w) \<and>
   reconnect s = s\<lparr>smEvents := smEvents s @ [reconnect_event]\<rparr> \<and>
   socket (reconnect s) = socket s \<and>
   retryIndex (reconnect s) = retryIndex s \<and>
   smActive (reconnect s) = smActive s \<and>
   timers (reconnect s) = timers s"
  by (simp add: ws_reconnect_def reconnect_def submitEvent_def)

theorem reconnect_noop_while_connecting_or_closing_witness:
  "ws_state wsConnecting = Connecting \<and> ws_reconnect wsConnecting = wsConnecting \<and>
   ws_state (wsConnecting\<lparr>ws_state := Closing\<rparr>) = Closing \<and>
   ws_reconnect (wsConnecting\<lparr>ws_state := Closing\<rparr>) = wsConnecting\<lparr>ws_state := Closing\<rparr>"
  using reconnect_noop_while_connecting_or_closing [of wsConnecting]
    reconnect_noop_while_connecting_or_closing [of "wsConnecting\<lparr>ws_state := Closing\<rparr>"]
  by (simp add: wsConnecting_def)

text \<open>The guard matters: from \<open>Idle\<close> with a socket, \<open>reconnect()\<close> starts closing it.\<close>

lemma ws_reconnect_from_Idle:
  "ws_reconnect (wsConnecting\<lparr>ws_state := Idle\<rparr>) \<noteq> wsConnecting\<lparr>ws_state := Idle\<rparr> \<and>
   ws_state (ws_reconnect (wsConnecting\<lparr>ws_state := Idle\<rparr>)) = Closing"
  by (simp add: ws_reconnect_def wsConnecting_def)

subsection \<open>Back-off\<close>

lemma retry_step:
  assumes "0 \<le> retryIndex s" and "retryIndex s \<le> 5"
  shows "retry s =
     Some (Timeouts ! min (nat (retryIndex s)) 4,
       singleShot (Timeouts ! min (nat (retryIndex s)) 4) retryTimer
         (s\<lparr>retryIndex := min (retryIndex s + 1) 5\<rparr>))"
proof (cases "retryIndex s = 5")
  case True
  then have same: "s\<lparr>retryIndex := 5\<rparr> = s"
    by (cases s) simp
  show ?thesis
    using True by (simp add: retry_def Timeouts_def same)
next
  case False
  then have "retryIndex s < 5"
    using assms(2) by simp
  then have "min (nat (retryIndex s)) 4 = nat (retryIndex s)" and "min (retryIndex s + 1) 5 = retryIndex s + 1"
    by simp_all
  then show ?thesis
    using assms(1) \<open>retryIndex s < 5\<close> by (simp add: retry_def Timeouts_def)
qed

lemma scheduleRetries_from:
  "retryIndex s = int i \<Longrightarrow> i \<le> 5 \<Longrightarrow>
   \<exists>s'. scheduleRetries n s = Some (map (\<lambda>k. Timeouts ! min (i + k) 4) [0..<n], s') \<and>
        retryIndex s' = int (min (i + n) 5) \<and>
        timers s' = timers s @ map (\<lambda>k. (Timeouts ! min (i + k) 4, retryTimer)) [0..<n]"
proof (induction n arbitrary: s i)
  case 0
  then show ?case by simp
next
  case (Suc n)
  let ?d = "Timeouts ! min i 4"
  let ?s1 = "singleShot ?d retryTimer (s\<lparr>retryIndex := min (retryIndex s + 1) 5\<rparr>)"
  have step: "scheduleRetry s = Some (?d, ?s1)"
    using Suc.prems by (simp add: scheduleRetry_def retry_step)
  have idx: "retryIndex ?s1 = int (min (i + 1) 5)"
    using Suc.prems by (simp add: singleShot_def)
  from Suc.IH [OF idx] obtain s' where
    run: "scheduleRetries n ?s1 =
        Some (map (\<lambda>k. Timeouts ! min (min (i + 1) 5 + k) 4) [0..<n], s')"
    and fin: "retryIndex s' = int (min (min (i + 1) 5 + n) 5)"
    and tm: "timers s' = timers ?s1 @
        map (\<lambda>k. (Timeouts ! min (min (i + 1) 5 + k) 4, retryTimer)) [0..<n]"
    by auto
  have shift: "\<And>k. min (min (i + 1) 5 + k) 4 = min (i + Suc k) 4"
    by simp
  note run' = run [unfolded shift] and tm' = tm [unfolded shift]
  have "scheduleRetries (Suc n) s =
      Some (?d # map (\<lambda>k. Timeouts ! min (i + Suc k) 4) [0..<n], s')"
    by (simp add: step run')
  then have "scheduleRetries (Suc n) s =
      Some (map (\<lambda>k. Timeouts ! min (i + k) 4) [0..<Suc n], s')"
    by (simp only: map_upt_Suc add_0_right)
  moreover have "retryIndex s' = int (min (i + Suc n) 5)"
    using fin by simp
  moreover have "timers s' = timers s @
      (?d, retryTimer) # map (\<lambda>k. (Timeouts ! min (i + Suc k) 4, retryTimer)) [0..<n]"
    by (simp add: tm' singleShot_def)
  then have "timers s' = timers s @
      map (\<lambda>k. (Timeouts ! min (i + k) 4, retryTimer)) [0..<Suc n]"
    by (simp only: map_upt_Suc add_0_right)
  ultimately show ?case
    by blast
qed

lemma backoff_prefix:
  "map (\<lambda>k. Timeouts ! min k 4) [0..<n] = take n ([5, 10, 30, 60] @ replicate n 300)"
proof (rule nth_equalityI)
  show "length (map (\<lambda>k. Timeouts ! min k 4) [0..<n]) =
      length (take n ([5, 10, 30, 60] @ replicate n 300))"
    by simp
next
  fix i
  assume "i < length (map (\<lambda>k. Timeouts ! min k 4) [0..<n])"
  then have i: "i < n"
    by simp
  consider "i = 0" | "i = 1" | "i = 2" | "i = 3" | "4 \<le> i"
    by linarith
  then show "map (\<lambda>k. Timeouts ! min k 4) [0..<n] ! i =
      take n ([5, 10, 30, 60] @ replicate n 300) ! i"
  proof cases
    case 5
    then have "min i 4 = 4"
      by simp
    then show ?thesis
      using i 5 by (simp add: Timeouts_def nth_append)
  qed (use i in \<open>simp_all add: Timeouts_def\<close>)
qed

lemma onEntryIdleState_retryIndex:
  "onEntryIdleState ops s = Return s' \<Longrightarrow> retryIndex s' = 0"
  by (auto simp: onEntryIdleState_def initKeyUpdate_def andThen_def catchException_def
      sendMessage_def sendBinaryMessage_def onClientError_def triggerError_def submitEvent_def
      emit_def Let_def split: if_splits option.splits outcome.splits exn.splits)

lemma onEntryIdleState_returns:
  "socket s \<noteq> None \<or> \<not> hasKeyUpdate ops (cryptoController s) \<Longrightarrow>
   \<exists>s'. onEntryIdleState ops s = Return s'"
  by (auto simp: onEntryIdleState_def initKeyUpdate_def andThen_def catchException_def
      sendMessage_def sendBinaryMessage_def Let_def)

text \<open>
  C5. From retry index 0, \<open>n\<close> entries of the state \<open>Retry\<close> in a row schedule the delays
  5, 10, 30, 60, 300, 300, ... seconds (the first \<open>n\<close> of them), each as a single-shot
  timer, and leave the index at \<open>min n 5\<close>: one entry advances an index below 5 by one
  and schedules the entry of \<open>Timeouts\<close> at the index; at 5 and above the delay is 300
  and the index stays. The entry action of \<open>Idle\<close> (reached after \<open>Welcome\<close> or
  \<open>Account\<close>) sets the index to 0 whenever it returns, and it returns when the socket
  is there or no key update is due.
\<close>

theorem backoff_schedule:
  "(retryIndex s = 0 \<longrightarrow>
      (\<exists>s'. scheduleRetries n s = Some (take n ([5, 10, 30, 60] @ replicate n 300), s') \<and>
            retryIndex s' = int (min n 5) \<and>
            timers s' = timers s @
              map (\<lambda>d. (d, retryTimer)) (take n ([5, 10, 30, 60] @ replicate n 300)))) \<and>
   (0 \<le> retryIndex s \<and> retryIndex s < 5 \<longrightarrow>
      (\<exists>s'. scheduleRetry s = Some (Timeouts ! nat (retryIndex s), s') \<and>
            retryIndex s' = retryIndex s + 1)) \<and>
   (5 \<le> retryIndex s \<longrightarrow>
      (\<exists>s'. scheduleRetry s = Some (300, s') \<and> retryIndex s' = retryIndex s)) \<and>
   (\<forall>s'. onEntryIdleState ops s = Return s' \<longrightarrow> retryIndex s' = 0) \<and>
   (socket s \<noteq> None \<or> \<not> hasKeyUpdate ops (cryptoController s) \<longrightarrow>
      (\<exists>s'. onEntryIdleState ops s = Return s'))"
proof -
  have run: "retryIndex s = 0 \<longrightarrow>
      (\<exists>s'. scheduleRetries n s = Some (take n ([5, 10, 30, 60] @ replicate n 300), s') \<and>
            retryIndex s' = int (min n 5) \<and>
            timers s' = timers s @
              map (\<lambda>d. (d, retryTimer)) (take n ([5, 10, 30, 60] @ replicate n 300)))"
  proof
    assume "retryIndex s = 0"
    then have "retryIndex s = int 0"
      by simp
    from scheduleRetries_from [OF this, of n] obtain s' where
      r: "scheduleRetries n s = Some (map (\<lambda>k. Timeouts ! min k 4) [0..<n], s')"
      and i: "retryIndex s' = int (min n 5)"
      and t: "timers s' = timers s @ map (\<lambda>k. (Timeouts ! min k 4, retryTimer)) [0..<n]"
      by auto
    have "map (\<lambda>k. (Timeouts ! min k 4, retryTimer)) [0..<n] =
        map (\<lambda>d. (d, retryTimer)) (map (\<lambda>k. Timeouts ! min k 4) [0..<n])"
      by (simp add: comp_def)
    then show "\<exists>s'. scheduleRetries n s = Some (take n ([5, 10, 30, 60] @ replicate n 300), s') \<and>
            retryIndex s' = int (min n 5) \<and>
            timers s' = timers s @
              map (\<lambda>d. (d, retryTimer)) (take n ([5, 10, 30, 60] @ replicate n 300))"
      using r i t by (simp only: backoff_prefix) blast
  qed
  have advance: "0 \<le> retryIndex s \<and> retryIndex s < 5 \<longrightarrow>
      (\<exists>s'. scheduleRetry s = Some (Timeouts ! nat (retryIndex s), s') \<and>
            retryIndex s' = retryIndex s + 1)"
    by (simp add: scheduleRetry_def retry_def Timeouts_def singleShot_def)
  have capped: "5 \<le> retryIndex s \<longrightarrow>
      (\<exists>s'. scheduleRetry s = Some (300, s') \<and> retryIndex s' = retryIndex s)"
    by (simp add: scheduleRetry_def retry_def Timeouts_def singleShot_def)
  show ?thesis
    using run advance capped onEntryIdleState_retryIndex [of ops s]
      onEntryIdleState_returns [of s ops]
    by blast
qed

theorem backoff_schedule_witness:
  "retryIndex idleConnector = 0 \<and>
   (\<exists>s'. scheduleRetries 7 idleConnector = Some ([5, 10, 30, 60, 300, 300, 300], s') \<and>
         retryIndex s' = 5) \<and>
   socket idleConnector \<noteq> None \<and>
   (\<exists>s'. onEntryIdleState exampleOps (idleConnector\<lparr>retryIndex := 3\<rparr>) = Return s' \<and>
         retryIndex s' = 0)"
proof -
  have zero: "retryIndex idleConnector = 0" and sock: "socket idleConnector \<noteq> None"
    by (simp_all add: idleConnector_def)
  have seven: "take 7 ([5, 10, 30, 60] @ replicate 7 300) = [5, 10, 30, 60, 300, 300, 300 :: int]"
    by (simp add: eval_nat_numeral)
  have run: "\<exists>s'. scheduleRetries 7 idleConnector = Some ([5, 10, 30, 60, 300, 300, 300], s') \<and>
         retryIndex s' = 5"
    using zero backoff_schedule [of idleConnector 7 exampleOps] seven by auto
  have sock3: "socket (idleConnector\<lparr>retryIndex := 3\<rparr>) \<noteq> None"
    using sock by simp
  have reset: "\<exists>s'. onEntryIdleState exampleOps (idleConnector\<lparr>retryIndex := 3\<rparr>) = Return s' \<and>
         retryIndex s' = 0"
    using sock3 backoff_schedule [of "idleConnector\<lparr>retryIndex := 3\<rparr>" 0 exampleOps] by blast
  show ?thesis
    using zero run sock reset by blast
qed

subsection \<open>Import proofs\<close>

text \<open>
  A proof that arrives outside \<open>Idle\<close> is not handled, and one whose nonce has no entry
  in the export cache is denied.
\<close>

lemma onProof_not_idle:
  "\<not> isIdle s \<Longrightarrow> onProof ops m s = Return (triggerError True s)"
  by (simp add: onProof_def)

lemma onProof_no_export:
  assumes "isIdle s" and "exportsCache s (pm_pNonce m) = None" and "socket s = Some sent"
  shows "onProof ops m s =
     Return (s\<lparr>socket := Some (sent @ [serializeMessage ops (DenyMessage (pm_deviceId m))])\<rparr>)"
proof -
  have same: "(exportsCache s)(pm_pNonce m := None) = exportsCache s"
    using assms(2) by (simp add: fun_upd_idem)
  have keep: "s\<lparr>exportsCache := exportsCache s\<rparr> = s"
    by (cases s) simp
  show ?thesis
    using assms
    by (simp add: onProof_def onProof_try_def catchException_def sendMessage_def
        sendBinaryMessage_def same keep Let_def)
qed

lemma onProof_try_takes:
  "(onProof_try ops m s = Return s' \<or> onProof_try ops m s = Throw e s') \<Longrightarrow>
   exportsCache s' (pm_pNonce m) = None"
  by (auto simp: onProof_try_def loginReply_def andThen_def catchException_def sendMessage_def
      sendBinaryMessage_def emit_def singleShot_def Let_def
      split: if_splits option.splits sum.splits outcome.splits exn.splits prod.splits)

lemma onProof_takes:
  assumes "isIdle s" and "onProof ops m s = Return s' \<or> onProof ops m s = Throw e s'"
  shows "exportsCache s' (pm_pNonce m) = None"
proof (cases "onProof_try ops m s")
  case (Return s1)
  then have "s' = s1"
    using assms by (simp add: onProof_def catchException_def)
  then show ?thesis
    using Return onProof_try_takes [of ops m s s1] by simp
next
  case (Throw e1 s1)
  have taken: "exportsCache s1 (pm_pNonce m) = None"
    using Throw onProof_try_takes [of ops m s s1 e1] by simp
  show ?thesis
  proof (cases e1)
    case Exception
    then have "sendMessage ops (DenyMessage (pm_deviceId m)) s1 = Return s' \<or>
        sendMessage ops (DenyMessage (pm_deviceId m)) s1 = Throw e s'"
      using assms Throw by (simp add: onProof_def catchException_def)
    then have "exportsCache s' = exportsCache s1"
      by (auto simp: sendMessage_def sendBinaryMessage_def split: option.splits)
    then show ?thesis
      using taken by simp
  next
    case OtherException
    then have "s' = s1"
      using assms Throw by (simp add: onProof_def catchException_def)
    then show ?thesis
      using taken by simp
  qed
next
  case NullSocket
  then show ?thesis
    using assms by (simp add: onProof_def catchException_def)
qed

text \<open>
  C10. A proof that is handled (the connector is idle) takes the entry of its nonce out
  of the export cache, whether the handler returns or an exception leaves it. For a
  second proof with the same nonce, handled in any later idle state in which nothing
  has been put into the cache under that nonce since (\<open>exportAccount\<close> is what puts an
  entry there), the lookup fails: the connector sends \<open>Deny\<close> for the device of the
  second proof and changes nothing else, so that proof is not accepted: it is neither
  cached nor answered with \<open>Accept\<close>, and no signal is emitted.
\<close>

theorem export_nonce_accepted_once:
  assumes "isIdle s"
    and "onProof ops m1 s = Return s1 \<or> onProof ops m1 s = Throw e s1"
    and "pm_pNonce m2 = pm_pNonce m1"
    and "exportsCache s2 (pm_pNonce m1) = exportsCache s1 (pm_pNonce m1)"
    and "isIdle s2"
    and "socket s2 = Some sent"
  shows "exportsCache s1 (pm_pNonce m1) = None \<and>
     onProof ops m2 s2 =
       Return (s2\<lparr>socket := Some (sent @ [serializeMessage ops (DenyMessage (pm_deviceId m2))])\<rparr>) \<and>
     (\<forall>nonce key s'. exportAccount nonce key s2 = Return s' \<longrightarrow> exportsCache s' nonce = Some key)"
proof -
  have taken: "exportsCache s1 (pm_pNonce m1) = None"
    using assms(1) assms(2) by (rule onProof_takes)
  then have "exportsCache s2 (pm_pNonce m2) = None"
    using assms(3) assms(4) by simp
  then have denied: "onProof ops m2 s2 =
       Return (s2\<lparr>socket := Some (sent @ [serializeMessage ops (DenyMessage (pm_deviceId m2))])\<rparr>)"
    using assms(5) assms(6) by (simp add: onProof_no_export)
  have export: "\<forall>nonce key s'. exportAccount nonce key s2 = Return s' \<longrightarrow>
      exportsCache s' nonce = Some key"
    by (auto simp: exportAccount_def split: if_splits)
  show ?thesis
    using taken denied export by blast
qed

text \<open>
  C6. An idle connector receives a proof whose nonce has an entry with a non-empty key in
  the export cache, whose cmac verifies under that key and whose keys are accepted.
  With a trustmac that verifies (and the secret encrypted for the peer, on a socket) the
  connector sends \<open>Accept\<close> with the device id and the index, scheme and secret of
  \<open>encryptSecretKey\<close>, emits \<open>prepareAddedData\<close> and \<open>accountAccessGranted\<close> for the
  device and no \<open>loginRequested\<close>, and keeps no proof cached. With a null trustmac it
  caches the proof, emits \<open>loginRequested\<close> with the device's id, name and fingerprint,
  and sends nothing. Either way the export entry is gone and the ten-minute timer runs.
  For a cached proof, \<open>loginReply\<close> with \<open>false\<close> and the timer's slot send \<open>Deny\<close>,
  and \<open>loginReply\<close> with \<open>true\<close> sends \<open>Accept\<close>; each removes the proof.
\<close>

theorem onProof_trusted_or_asked:
  assumes "isIdle s"
    and "exportsCache s (pm_pNonce m) = Some key" and "key \<noteq> []"
    and "info = \<lparr>ci_signAlgorithm = pm_signAlgorithm m, ci_signKey = pm_signKey m,
                  ci_cryptAlgorithm = pm_cryptAlgorithm m, ci_cryptKey = pm_cryptKey m\<rparr>"
    and "verifyImportCmac ops (pm_macscheme m) key
           (pm_pNonce m @ toRfc4122 ops (thisDeviceId s) @ pm_macscheme m) (pm_cmac m) = None"
    and "checkCryptoInfo ops info = None"
  shows
    "(\<forall>t index scheme secret sent.
        pm_trustmac m = Some t \<and>
        verifyImportCmacForCrypto ops (pm_macscheme m) key info t = None \<and>
        encryptSecretKey ops (cryptoController s) info = Inr (index, scheme, secret) \<and>
        socket s = Some sent \<longrightarrow>
        onProof ops m s = Return (s
          \<lparr>socket := Some (sent @
              [serializeMessage ops (AcceptMessage (pm_deviceId m) index scheme secret)]),
           exportsCache := (exportsCache s)(pm_pNonce m := None),
           activeProofs := (activeProofs s)(pm_deviceId m := None),
           timers := timers s @ [(600, proofTimer (pm_deviceId m))],
           emitted := emitted s @
              [prepareAddedData (pm_deviceId m), accountAccessGranted (pm_deviceId m)]\<rparr>)) \<and>
     (pm_trustmac m = None \<longrightarrow>
        onProof ops m s = Return (s
          \<lparr>exportsCache := (exportsCache s)(pm_pNonce m := None),
           activeProofs := (activeProofs s)(pm_deviceId m \<mapsto> info),
           timers := timers s @ [(600, proofTimer (pm_deviceId m))],
           emitted := emitted s @
              [loginRequested (pm_deviceId m) (pm_deviceName m) (ownFingerprint ops info)]\<rparr>)) \<and>
     (\<forall>c dev sent. isIdle c \<and> activeProofs c dev = Some info \<and> socket c = Some sent \<longrightarrow>
        loginReply ops dev False c = Return (c
          \<lparr>socket := Some (sent @ [serializeMessage ops (DenyMessage dev)]),
           activeProofs := (activeProofs c)(dev := None)\<rparr>) \<and>
        proofTimeout ops dev c = Return (c
          \<lparr>socket := Some (sent @ [serializeMessage ops (DenyMessage dev)]),
           activeProofs := (activeProofs c)(dev := None)\<rparr>) \<and>
        (\<forall>index scheme secret.
           encryptSecretKey ops (cryptoController c) info = Inr (index, scheme, secret) \<longrightarrow>
           loginReply ops dev True c = Return (c
             \<lparr>socket := Some (sent @ [serializeMessage ops (AcceptMessage dev index scheme secret)]),
              activeProofs := (activeProofs c)(dev := None),
              emitted := emitted c @ [prepareAddedData dev, accountAccessGranted dev]\<rparr>)))"
proof -
  have trusted: "\<forall>t index scheme secret sent.
        pm_trustmac m = Some t \<and>
        verifyImportCmacForCrypto ops (pm_macscheme m) key info t = None \<and>
        encryptSecretKey ops (cryptoController s) info = Inr (index, scheme, secret) \<and>
        socket s = Some sent \<longrightarrow>
        onProof ops m s = Return (s
          \<lparr>socket := Some (sent @
              [serializeMessage ops (AcceptMessage (pm_deviceId m) index scheme secret)]),
           exportsCache := (exportsCache s)(pm_pNonce m := None),
           activeProofs := (activeProofs s)(pm_deviceId m := None),
           timers := timers s @ [(600, proofTimer (pm_deviceId m))],
           emitted := emitted s @
              [prepareAddedData (pm_deviceId m), accountAccessGranted (pm_deviceId m)]\<rparr>)"
    using assms
    by (simp add: onProof_def onProof_try_def loginReply_def isIdle_def andThen_def
        catchException_def sendMessage_def sendBinaryMessage_def emit_def singleShot_def Let_def)
  have asked: "pm_trustmac m = None \<longrightarrow>
        onProof ops m s = Return (s
          \<lparr>exportsCache := (exportsCache s)(pm_pNonce m := None),
           activeProofs := (activeProofs s)(pm_deviceId m \<mapsto> info),
           timers := timers s @ [(600, proofTimer (pm_deviceId m))],
           emitted := emitted s @
              [loginRequested (pm_deviceId m) (pm_deviceName m) (ownFingerprint ops info)]\<rparr>)"
    using assms
    by (simp add: onProof_def onProof_try_def isIdle_def andThen_def
        catchException_def emit_def singleShot_def Let_def)
  have later: "\<forall>c dev sent. isIdle c \<and> activeProofs c dev = Some info \<and> socket c = Some sent \<longrightarrow>
        loginReply ops dev False c = Return (c
          \<lparr>socket := Some (sent @ [serializeMessage ops (DenyMessage dev)]),
           activeProofs := (activeProofs c)(dev := None)\<rparr>) \<and>
        proofTimeout ops dev c = Return (c
          \<lparr>socket := Some (sent @ [serializeMessage ops (DenyMessage dev)]),
           activeProofs := (activeProofs c)(dev := None)\<rparr>) \<and>
        (\<forall>index scheme secret.
           encryptSecretKey ops (cryptoController c) info = Inr (index, scheme, secret) \<longrightarrow>
           loginReply ops dev True c = Return (c
             \<lparr>socket := Some (sent @ [serializeMessage ops (AcceptMessage dev index scheme secret)]),
              activeProofs := (activeProofs c)(dev := None),
              emitted := emitted c @ [prepareAddedData dev, accountAccessGranted dev]\<rparr>))"
    by (simp add: loginReply_def proofTimeout_def isIdle_def andThen_def
        catchException_def sendMessage_def sendBinaryMessage_def emit_def Let_def)
  show ?thesis
    using trusted asked later by blast
qed

lemma onProof_untrusted_example:
  "onProof exampleOps untrustedProof idleConnector = Return askedConnector"
  by (simp add: onProof_def onProof_try_def isIdle_def andThen_def catchException_def
      emit_def singleShot_def Let_def idleConnector_def untrustedProof_def exampleOps_def
      askedConnector_def)

theorem onProof_trusted_or_asked_witness:
  "isIdle idleConnector \<and>
   exportsCache idleConnector (pm_pNonce trustedProof) = Some ''exportkey'' \<and>
   pm_trustmac trustedProof = Some ''trusted'' \<and>
   onProof exampleOps trustedProof idleConnector = Return (idleConnector
     \<lparr>socket := Some [''Accept:secret-for-cpk''],
      exportsCache := Map.empty,
      timers := [(600, proofTimer 300)],
      emitted := [prepareAddedData 300, accountAccessGranted 300]\<rparr>)"
proof -
  let ?info = "\<lparr>ci_signAlgorithm = pm_signAlgorithm trustedProof, ci_signKey = pm_signKey trustedProof,
      ci_cryptAlgorithm = pm_cryptAlgorithm trustedProof, ci_cryptKey = pm_cryptKey trustedProof\<rparr>"
  have idle: "isIdle idleConnector"
    by (simp add: isIdle_def idleConnector_def)
  have cached: "exportsCache idleConnector (pm_pNonce trustedProof) = Some ''exportkey''"
    by (simp add: idleConnector_def trustedProof_def untrustedProof_def)
  have key: "''exportkey'' \<noteq> []"
    by simp
  have mac: "verifyImportCmac exampleOps (pm_macscheme trustedProof) ''exportkey''
      (pm_pNonce trustedProof @ toRfc4122 exampleOps (thisDeviceId idleConnector) @
       pm_macscheme trustedProof) (pm_cmac trustedProof) = None"
    by (simp add: exampleOps_def)
  have keys: "checkCryptoInfo exampleOps ?info = None"
    by (simp add: exampleOps_def)
  have trust: "pm_trustmac trustedProof = Some ''trusted''"
    by (simp add: trustedProof_def)
  have tmac: "verifyImportCmacForCrypto exampleOps (pm_macscheme trustedProof) ''exportkey''
      ?info ''trusted'' = None"
    by (simp add: exampleOps_def)
  have enc: "encryptSecretKey exampleOps (cryptoController idleConnector) ?info =
      Inr (0, ''AES'', ''secret-for-cpk'')"
    by (simp add: exampleOps_def idleConnector_def trustedProof_def untrustedProof_def)
  have sock: "socket idleConnector = Some []"
    by (simp add: idleConnector_def)
  have "onProof exampleOps trustedProof idleConnector = Return (idleConnector
          \<lparr>socket := Some ([] @
              [serializeMessage exampleOps
                 (AcceptMessage (pm_deviceId trustedProof) 0 ''AES'' ''secret-for-cpk'')]),
           exportsCache := (exportsCache idleConnector)(pm_pNonce trustedProof := None),
           activeProofs := (activeProofs idleConnector)(pm_deviceId trustedProof := None),
           timers := timers idleConnector @ [(600, proofTimer (pm_deviceId trustedProof))],
           emitted := emitted idleConnector @
              [prepareAddedData (pm_deviceId trustedProof),
               accountAccessGranted (pm_deviceId trustedProof)]\<rparr>)"
    using onProof_trusted_or_asked [OF idle cached key refl mac keys] trust tmac enc sock
    by blast
  then have run: "onProof exampleOps trustedProof idleConnector = Return (idleConnector
     \<lparr>socket := Some [''Accept:secret-for-cpk''],
      exportsCache := Map.empty,
      timers := [(600, proofTimer 300)],
      emitted := [prepareAddedData 300, accountAccessGranted 300]\<rparr>)"
    by (simp add: exampleOps_def idleConnector_def trustedProof_def untrustedProof_def)
  show ?thesis
    using idle cached trust run by blast
qed

theorem export_nonce_accepted_once_witness:
  "isIdle idleConnector \<and>
   onProof exampleOps untrustedProof idleConnector = Return askedConnector \<and>
   pm_pNonce trustedProof = pm_pNonce untrustedProof \<and>
   isIdle askedConnector \<and>
   socket askedConnector = Some [] \<and>
   exportsCache askedConnector (pm_pNonce untrustedProof) = None \<and>
   onProof exampleOps trustedProof askedConnector = Return (askedConnector\<lparr>socket := Some [''Deny'']\<rparr>)"
proof -
  have idle: "isIdle idleConnector"
    by (simp add: isIdle_def idleConnector_def)
  have first: "onProof exampleOps untrustedProof idleConnector = Return askedConnector \<or>
      onProof exampleOps untrustedProof idleConnector = Throw Exception askedConnector"
    by (simp add: onProof_untrusted_example)
  have nonce: "pm_pNonce trustedProof = pm_pNonce untrustedProof"
    by (simp add: trustedProof_def)
  have idle2: "isIdle askedConnector"
    by (simp add: isIdle_def askedConnector_def idleConnector_def)
  have sock: "socket askedConnector = Some []"
    by (simp add: askedConnector_def idleConnector_def)
  have deny: "serializeMessage exampleOps (DenyMessage (pm_deviceId trustedProof)) = ''Deny''"
    by (simp add: exampleOps_def)
  show ?thesis
    using idle nonce idle2 sock onProof_untrusted_example
      export_nonce_accepted_once [OF idle first nonce refl idle2 sock]
    by (simp add: deny)
qed

subsection \<open>Welcome\<close>

lemma keyUpdateLoop_flag:
  "keyUpdateLoop ops dev us (ku, c) = (None, ku', c') \<Longrightarrow> ku' = (ku \<or> us \<noteq> [])"
  by (induction us arbitrary: ku c) (auto split: option.splits sum.splits)

lemma decryptSecretKey_index:
  "decryptSecretKey ops c i scheme cipher False = Inr c1 \<Longrightarrow>
   localCipher c1 = max i (localCipher c)"
  by (auto simp: decryptSecretKey_def split: option.splits)

lemma decryptSecretKey_ciphers:
  "decryptSecretKey ops c i scheme cipher False = Inr c1 \<Longrightarrow>
   \<exists>key. asymDecrypt ops cipher = Some key \<and> ciphers c1 = (ciphers c)(i \<mapsto> (scheme, key))"
  by (auto simp: decryptSecretKey_def split: option.splits)

lemma keyUpdateLoop_index:
  "keyUpdateLoop ops dev us (ku, c) = (None, ku', c') \<Longrightarrow>
   localCipher c' = fold max (map fst us) (localCipher c)"
proof (induction us arbitrary: ku c)
  case Nil
  then show ?case by simp
next
  case (Cons u us)
  from Cons.prems obtain c1 where
    dec: "decryptSecretKey ops c (fst u) (fst (snd u)) (fst (snd (snd u))) False = Inr c1"
    and rest: "keyUpdateLoop ops dev us (True, c1) = (None, ku', c')"
    by (auto split: option.splits sum.splits)
  have "localCipher c' = fold max (map fst us) (localCipher c1)"
    using Cons.IH [OF rest] .
  then show ?case
    by (simp add: decryptSecretKey_index [OF dec])
qed

lemma fold_max_Max:
  "fold max xs (a::nat) = Max (insert a (set xs))"
  using Max.set_eq_fold [of a xs] by simp

lemma keyUpdateLoop_current:
  "keyUpdateLoop ops dev us (ku, c) = (None, ku', c') \<Longrightarrow>
   ciphers c (localCipher c) \<noteq> None \<Longrightarrow> ciphers c' (localCipher c') \<noteq> None"
proof (induction us arbitrary: ku c)
  case Nil
  then show ?case by simp
next
  case (Cons u us)
  from Cons.prems(1) obtain c1 where
    dec: "decryptSecretKey ops c (fst u) (fst (snd u)) (fst (snd (snd u))) False = Inr c1"
    and rest: "keyUpdateLoop ops dev us (True, c1) = (None, ku', c')"
    by (auto split: option.splits sum.splits)
  have "ciphers c1 (localCipher c1) \<noteq> None"
    using dec Cons.prems(2) by (auto simp: decryptSecretKey_def split: option.splits)
  then show ?case
    using Cons.IH [OF rest] by simp
qed

lemma keyUpdateLoop_keeps:
  "keyUpdateLoop ops dev us (ku, c) = (None, ku', c') \<Longrightarrow> j \<notin> set (map fst us) \<Longrightarrow>
   ciphers c' j = ciphers c j"
proof (induction us arbitrary: ku c)
  case Nil
  then show ?case by simp
next
  case (Cons u us)
  from Cons.prems(1) obtain c1 where
    dec: "decryptSecretKey ops c (fst u) (fst (snd u)) (fst (snd (snd u))) False = Inr c1"
    and rest: "keyUpdateLoop ops dev us (True, c1) = (None, ku', c')"
    by (auto split: option.splits sum.splits)
  have "ciphers c1 j = ciphers c j"
    using decryptSecretKey_ciphers [OF dec] Cons.prems(2) by auto
  moreover have "ciphers c' j = ciphers c1 j"
    using Cons.IH [OF rest] Cons.prems(2) by simp
  ultimately show ?case
    by simp
qed

lemma keyUpdateLoop_installed:
  "keyUpdateLoop ops dev us (ku, c) = (None, ku', c') \<Longrightarrow> distinct (map fst us) \<Longrightarrow>
   \<forall>u \<in> set us. \<exists>k. asymDecrypt ops (fst (snd (snd u))) = Some k \<and>
      ciphers c' (fst u) = Some (fst (snd u), k)"
proof (induction us arbitrary: ku c)
  case Nil
  then show ?case by simp
next
  case (Cons u us)
  from Cons.prems(1) obtain c1 where
    dec: "decryptSecretKey ops c (fst u) (fst (snd u)) (fst (snd (snd u))) False = Inr c1"
    and rest: "keyUpdateLoop ops dev us (True, c1) = (None, ku', c')"
    by (auto split: option.splits sum.splits)
  from decryptSecretKey_ciphers [OF dec] obtain key where
    key: "asymDecrypt ops (fst (snd (snd u))) = Some key"
    and c1: "ciphers c1 = (ciphers c)(fst u \<mapsto> (fst (snd u), key))"
    by blast
  have "fst u \<notin> set (map fst us)"
    using Cons.prems(2) by simp
  then have "ciphers c' (fst u) = ciphers c1 (fst u)"
    using keyUpdateLoop_keeps [OF rest] by blast
  then have head: "\<exists>k. asymDecrypt ops (fst (snd (snd u))) = Some k \<and>
      ciphers c' (fst u) = Some (fst (snd u), k)"
    using key c1 by simp
  have tail: "\<forall>v \<in> set us. \<exists>k. asymDecrypt ops (fst (snd (snd v))) = Some k \<and>
      ciphers c' (fst v) = Some (fst (snd v), k)"
    using Cons.IH [OF rest] Cons.prems(2) by simp
  show ?case
    using head tail by simp
qed

lemma keyUpdateLoop_chain:
  "sorted_wrt (<) (map fst us) \<Longrightarrow> \<forall>i \<in> set (map fst us). localCipher c < i \<Longrightarrow>
   ciphers c (localCipher c) = Some (scheme0, key0) \<Longrightarrow>
   (fst (keyUpdateLoop ops dev us (ku, c)) = None) =
     eachVerifiedUnderPrecedingKey ops dev key0 us"
proof (induction us arbitrary: ku c scheme0 key0)
  case Nil
  then show ?case by simp
next
  case (Cons u us)
  have newer: "localCipher c < fst u"
    using Cons.prems(2) by simp
  have verify: "(verifyCmac ops c (keyIndex c) (signatureData ops dev u) (snd (snd (snd u))) = None) =
      (snd (snd (snd u)) = cmacTag ops key0 (signatureData ops dev u))"
    using Cons.prems(3) by (auto simp: verifyCmac_def keyIndex_def)
  show ?case
  proof (cases "asymDecrypt ops (fst (snd (snd u)))")
    case None
    then have "decryptSecretKey ops c (fst u) (fst (snd u)) (fst (snd (snd u))) False = Inl Exception"
      by (simp add: decryptSecretKey_def)
    then show ?thesis
      using None by (simp split: option.splits)
  next
    case (Some key)
    let ?c1 = "c\<lparr>ciphers := (ciphers c)(fst u \<mapsto> (fst (snd u), key)), localCipher := fst u\<rparr>"
    have dec: "decryptSecretKey ops c (fst u) (fst (snd u)) (fst (snd (snd u))) False = Inr ?c1"
      using Some newer by (simp add: decryptSecretKey_def)
    have sorted: "sorted_wrt (<) (map fst us)"
      using Cons.prems(1) by simp
    have above: "\<forall>i \<in> set (map fst us). localCipher ?c1 < i"
      using Cons.prems(1) by simp
    have cur: "ciphers ?c1 (localCipher ?c1) = Some (fst (snd u), key)"
      by simp
    have "(fst (keyUpdateLoop ops dev us (True, ?c1)) = None) =
        eachVerifiedUnderPrecedingKey ops dev key us"
      using Cons.IH [OF sorted above cur] .
    then show ?thesis
      using verify dec Some by (auto split: option.splits)
  qed
qed

lemma sorted_wrt_less_distinct:
  "sorted_wrt (<) (xs :: nat list) \<Longrightarrow> distinct xs"
  by (induction xs) auto

lemma Max_insert_below:
  assumes "xs \<noteq> []" and "\<forall>i \<in> set xs. (a::nat) < i"
  shows "Max (insert a (set xs)) = Max (set xs)"
proof -
  have "Max (insert a (set xs)) = max a (Max (set xs))"
    using assms(1) by (simp add: Max_insert)
  moreover have "\<exists>x. x \<in> set xs"
    using assms(1) by (cases xs) auto
  then have "a < Max (set xs)"
    using assms by (auto simp: Max_gr_iff)
  ultimately show ?thesis
    by simp
qed

lemma sendKeyUpdate_sends:
  assumes "ciphers (cryptoController c) (localCipher (cryptoController c)) = Some (scheme, key)"
    and "socket c = Some sent"
  shows "sendKeyUpdate ops c =
     Return (c\<lparr>socket := Some (sent @
                 [serializeMessage ops
                    (MacUpdateMessage (keyIndex (cryptoController c)) (cmacTag ops key key))]),
               sendCmac := Some True\<rparr>)"
  using assms
  by (simp add: sendKeyUpdate_def generateEncryptionKeyCmac_def sendMessage_def
      sendBinaryMessage_def Let_def)

text \<open>
  \<open>onWelcome\<close> on the modelled crypto controller. A \<open>WelcomeMessage\<close> arrives in the state
  \<open>LoggingIn\<close>; its key updates are in ascending order of index and newer than the current
  key, which the client holds; the socket is there. Then \<open>onWelcome\<close> returns exactly when
  each entry's cmac verifies under the immediately preceding key and each secret decrypts.
  When it returns, every entry's decrypted secret is kept under its index, the current key
  index is the highest index of the list (the index it was when the list is empty),
  \<open>account\<close> has been submitted, and the frame \<open>MacUpdate\<close> with the current index and the
  tag of the current key has been sent (and the flag \<open>sendCmac\<close> stored) if the list is not
  empty or the flag was set, and nothing has been sent otherwise. When a verification or a
  decryption fails, an exception leaves \<open>onWelcome\<close> and nothing has been sent.

  This is a property of the model of \<open>decryptSecretKey\<close> and \<open>verifyCmac\<close>, which the files do
  not define, and it needs the updates to be newer than the current key: the lemma
  \<open>onWelcome_older_key_example\<close> below runs the model on an update that is older.
\<close>

lemma onWelcome_key_updates:
  assumes "smActive s = LoggingInState"
    and "ciphers (cryptoController s) (keyIndex (cryptoController s)) = Some (scheme0, key0)"
    and "sorted_wrt (<) (map fst (wm_keyUpdates m))"
    and "\<forall>i \<in> set (map fst (wm_keyUpdates m)). keyIndex (cryptoController s) < i"
    and "socket s = Some sent"
  shows
    "(eachVerifiedUnderPrecedingKey ops (thisDeviceId s) key0 (wm_keyUpdates m) \<longrightarrow>
       (\<exists>s' scheme key.
          onWelcome ops m s = Return s' \<and>
          keyIndex (cryptoController s') =
            Max (insert (keyIndex (cryptoController s)) (set (map fst (wm_keyUpdates m)))) \<and>
          (wm_keyUpdates m \<noteq> [] \<longrightarrow>
             keyIndex (cryptoController s') = Max (set (map fst (wm_keyUpdates m)))) \<and>
          ciphers (cryptoController s') (keyIndex (cryptoController s')) = Some (scheme, key) \<and>
          (\<forall>u \<in> set (wm_keyUpdates m). \<exists>k. asymDecrypt ops (fst (snd (snd u))) = Some k \<and>
             ciphers (cryptoController s') (fst u) = Some (fst (snd u), k)) \<and>
          (wm_keyUpdates m \<noteq> [] \<or> sValue_sendCmac s \<longrightarrow>
             socket s' = Some (sent @ [serializeMessage ops
               (MacUpdateMessage (keyIndex (cryptoController s')) (cmacTag ops key key))]) \<and>
             sendCmac s' = Some True) \<and>
          (\<not> (wm_keyUpdates m \<noteq> [] \<or> sValue_sendCmac s) \<longrightarrow>
             socket s' = Some sent \<and> sendCmac s' = sendCmac s) \<and>
          smEvents s' = smEvents s @ [account_event] \<and>
          expectChanges s' = wm_hasChanges m)) \<and>
     (\<not> eachVerifiedUnderPrecedingKey ops (thisDeviceId s) key0 (wm_keyUpdates m) \<longrightarrow>
       (\<exists>e s'. onWelcome ops m s = Throw e s' \<and> socket s' = Some sent))"
proof -
  let ?us = "wm_keyUpdates m"
  let ?c0 = "cryptoController s"
  let ?s1 = "submitEvent account_event (s\<lparr>expectChanges := wm_hasChanges m\<rparr>)"
  let ?loop = "keyUpdateLoop ops (thisDeviceId s) ?us (False, ?c0)"
  have s1: "cryptoController ?s1 = ?c0" "thisDeviceId ?s1 = thisDeviceId s"
    by (simp_all add: submitEvent_def)
  have cur0: "ciphers ?c0 (localCipher ?c0) = Some (scheme0, key0)"
    using assms(2) by (simp add: keyIndex_def)
  have above: "\<forall>i \<in> set (map fst ?us). localCipher ?c0 < i"
    using assms(4) by (simp add: keyIndex_def)
  have chain: "(fst ?loop = None) = eachVerifiedUnderPrecedingKey ops (thisDeviceId s) key0 ?us"
    using keyUpdateLoop_chain [OF assms(3) above cur0] .
  have unfolded: "onWelcome ops m s =
      (case ?loop of
         (Some e, keyUpdated, c) \<Rightarrow> Throw e (?s1\<lparr>cryptoController := c\<rparr>)
       | (None, keyUpdated, c) \<Rightarrow>
           (if keyUpdated \<or> sValue_sendCmac (?s1\<lparr>cryptoController := c\<rparr>)
            then sendKeyUpdate ops (?s1\<lparr>cryptoController := c\<rparr>)
            else Return (?s1\<lparr>cryptoController := c\<rparr>)))"
    using assms(1) by (simp add: onWelcome_def s1 Let_def split: prod.splits option.splits)
  have good: "eachVerifiedUnderPrecedingKey ops (thisDeviceId s) key0 ?us \<longrightarrow>
       (\<exists>s' scheme key.
          onWelcome ops m s = Return s' \<and>
          keyIndex (cryptoController s') = Max (insert (keyIndex ?c0) (set (map fst ?us))) \<and>
          (?us \<noteq> [] \<longrightarrow> keyIndex (cryptoController s') = Max (set (map fst ?us))) \<and>
          ciphers (cryptoController s') (keyIndex (cryptoController s')) = Some (scheme, key) \<and>
          (\<forall>u \<in> set ?us. \<exists>k. asymDecrypt ops (fst (snd (snd u))) = Some k \<and>
             ciphers (cryptoController s') (fst u) = Some (fst (snd u), k)) \<and>
          (?us \<noteq> [] \<or> sValue_sendCmac s \<longrightarrow>
             socket s' = Some (sent @ [serializeMessage ops
               (MacUpdateMessage (keyIndex (cryptoController s')) (cmacTag ops key key))]) \<and>
             sendCmac s' = Some True) \<and>
          (\<not> (?us \<noteq> [] \<or> sValue_sendCmac s) \<longrightarrow>
             socket s' = Some sent \<and> sendCmac s' = sendCmac s) \<and>
          smEvents s' = smEvents s @ [account_event] \<and>
          expectChanges s' = wm_hasChanges m)"
  proof
    assume "eachVerifiedUnderPrecedingKey ops (thisDeviceId s) key0 ?us"
    then have "fst ?loop = None"
      using chain by simp
    then obtain ku' c' where loop: "?loop = (None, ku', c')"
      by (cases ?loop) auto
    let ?s2 = "?s1\<lparr>cryptoController := c'\<rparr>"
    have flag: "ku' = (?us \<noteq> [])"
      using keyUpdateLoop_flag [OF loop] by simp
    have index: "keyIndex c' = Max (insert (keyIndex ?c0) (set (map fst ?us)))"
      using keyUpdateLoop_index [OF loop] by (simp add: keyIndex_def fold_max_Max)
    have highest: "?us \<noteq> [] \<longrightarrow> keyIndex c' = Max (set (map fst ?us))"
    proof
      assume "?us \<noteq> []"
      then have ne: "map fst ?us \<noteq> []"
        by simp
      show "keyIndex c' = Max (set (map fst ?us))"
        by (rule trans [OF index Max_insert_below [OF ne assms(4)]])
    qed
    have "ciphers c' (localCipher c') \<noteq> None"
      using keyUpdateLoop_current [OF loop] cur0 by simp
    then obtain scheme key where cur: "ciphers c' (localCipher c') = Some (scheme, key)"
      by (cases "ciphers c' (localCipher c')") auto
    have installed: "\<forall>u \<in> set ?us. \<exists>k. asymDecrypt ops (fst (snd (snd u))) = Some k \<and>
        ciphers c' (fst u) = Some (fst (snd u), k)"
      using keyUpdateLoop_installed [OF loop] sorted_wrt_less_distinct [OF assms(3)] by blast
    have a: "sValue_sendCmac ?s2 = sValue_sendCmac s"
      by (simp add: sValue_sendCmac_def submitEvent_def)
    have cur2: "ciphers (cryptoController ?s2) (localCipher (cryptoController ?s2)) = Some (scheme, key)"
      using cur by simp
    have sock2: "socket ?s2 = Some sent"
      using assms(5) by (simp add: submitEvent_def)
    have run0: "onWelcome ops m s =
        (if ku' \<or> sValue_sendCmac ?s2 then sendKeyUpdate ops ?s2 else Return ?s2)"
      by (simp add: unfolded loop)
    show "\<exists>s' scheme key.
          onWelcome ops m s = Return s' \<and>
          keyIndex (cryptoController s') = Max (insert (keyIndex ?c0) (set (map fst ?us))) \<and>
          (?us \<noteq> [] \<longrightarrow> keyIndex (cryptoController s') = Max (set (map fst ?us))) \<and>
          ciphers (cryptoController s') (keyIndex (cryptoController s')) = Some (scheme, key) \<and>
          (\<forall>u \<in> set ?us. \<exists>k. asymDecrypt ops (fst (snd (snd u))) = Some k \<and>
             ciphers (cryptoController s') (fst u) = Some (fst (snd u), k)) \<and>
          (?us \<noteq> [] \<or> sValue_sendCmac s \<longrightarrow>
             socket s' = Some (sent @ [serializeMessage ops
               (MacUpdateMessage (keyIndex (cryptoController s')) (cmacTag ops key key))]) \<and>
             sendCmac s' = Some True) \<and>
          (\<not> (?us \<noteq> [] \<or> sValue_sendCmac s) \<longrightarrow>
             socket s' = Some sent \<and> sendCmac s' = sendCmac s) \<and>
          smEvents s' = smEvents s @ [account_event] \<and>
          expectChanges s' = wm_hasChanges m"
    proof (cases "?us \<noteq> [] \<or> sValue_sendCmac s")
      case True
      let ?s3 = "?s2\<lparr>socket := Some (sent @
                 [serializeMessage ops
                    (MacUpdateMessage (keyIndex (cryptoController ?s2)) (cmacTag ops key key))]),
               sendCmac := Some True\<rparr>"
      have "onWelcome ops m s = sendKeyUpdate ops ?s2"
        using True by (simp add: run0 flag a)
      then have run: "onWelcome ops m s = Return ?s3"
        by (simp only: sendKeyUpdate_sends [OF cur2 sock2])
      show ?thesis
      proof (intro exI conjI)
        show "onWelcome ops m s = Return ?s3"
          by (rule run)
        show "ciphers (cryptoController ?s3) (keyIndex (cryptoController ?s3)) = Some (scheme, key)"
          using cur by (simp add: keyIndex_def)
      qed (use True index highest installed in \<open>simp_all add: submitEvent_def\<close>)
    next
      case False
      have run: "onWelcome ops m s = Return ?s2"
        using False by (simp add: run0 flag a)
      show ?thesis
      proof (intro exI conjI)
        show "onWelcome ops m s = Return ?s2"
          by (rule run)
        show "ciphers (cryptoController ?s2) (keyIndex (cryptoController ?s2)) = Some (scheme, key)"
          using cur by (simp add: keyIndex_def)
      qed (use False index highest installed assms(5) in \<open>simp_all add: submitEvent_def\<close>)
    qed
  qed
  have bad: "\<not> eachVerifiedUnderPrecedingKey ops (thisDeviceId s) key0 ?us \<longrightarrow>
       (\<exists>e s'. onWelcome ops m s = Throw e s' \<and> socket s' = Some sent)"
  proof
    assume "\<not> eachVerifiedUnderPrecedingKey ops (thisDeviceId s) key0 ?us"
    then have "fst ?loop \<noteq> None"
      using chain by simp
    then obtain e ku' c' where loop: "?loop = (Some e, ku', c')"
      by (cases ?loop) auto
    have "onWelcome ops m s = Throw e (?s1\<lparr>cryptoController := c'\<rparr>)"
      by (simp add: unfolded loop)
    moreover have "socket (?s1\<lparr>cryptoController := c'\<rparr>) = Some sent"
      using assms(5) by (simp add: submitEvent_def)
    ultimately show "\<exists>e s'. onWelcome ops m s = Throw e s' \<and> socket s' = Some sent"
      by blast
  qed
  show ?thesis
    using good bad by blast
qed

lemma onWelcome_key_updates_example:
  "smActive loggingInConnector = LoggingInState \<and>
   ciphers (cryptoController loggingInConnector) (keyIndex (cryptoController loggingInConnector)) =
     Some (''AES'', ''k0'') \<and>
   sorted_wrt (<) (map fst (wm_keyUpdates welcomeTwoKeys)) \<and>
   socket loggingInConnector = Some [] \<and>
   eachVerifiedUnderPrecedingKey exampleOps (thisDeviceId loggingInConnector) ''k0''
     (wm_keyUpdates welcomeTwoKeys) \<and>
   (\<exists>s'. onWelcome exampleOps welcomeTwoKeys loggingInConnector = Return s' \<and>
      keyIndex (cryptoController s') = 2 \<and>
      ciphers (cryptoController s') 2 = Some (''AES'', ''k2'') \<and>
      socket s' = Some [''MacUpdate:k2k2''])"
proof -
  have state: "smActive loggingInConnector = LoggingInState"
    by (simp add: loggingInConnector_def)
  have cur: "ciphers (cryptoController loggingInConnector)
      (keyIndex (cryptoController loggingInConnector)) = Some (''AES'', ''k0'')"
    by (simp add: loggingInConnector_def idleConnector_def keyIndex_def)
  have sorted: "sorted_wrt (<) (map fst (wm_keyUpdates welcomeTwoKeys))"
    by (simp add: welcomeTwoKeys_def)
  have newer: "\<forall>i \<in> set (map fst (wm_keyUpdates welcomeTwoKeys)).
      keyIndex (cryptoController loggingInConnector) < i"
    by (simp add: welcomeTwoKeys_def loggingInConnector_def idleConnector_def keyIndex_def)
  have sock: "socket loggingInConnector = Some []"
    by (simp add: loggingInConnector_def idleConnector_def)
  have verified: "eachVerifiedUnderPrecedingKey exampleOps (thisDeviceId loggingInConnector) ''k0''
      (wm_keyUpdates welcomeTwoKeys)"
    by (simp add: welcomeTwoKeys_def exampleOps_def)
  from onWelcome_key_updates [OF state cur sorted newer sock, of exampleOps] verified
  obtain s' scheme key where
    run: "onWelcome exampleOps welcomeTwoKeys loggingInConnector = Return s'"
    and top: "wm_keyUpdates welcomeTwoKeys \<noteq> [] \<longrightarrow>
        keyIndex (cryptoController s') = Max (set (map fst (wm_keyUpdates welcomeTwoKeys)))"
    and curkey: "ciphers (cryptoController s') (keyIndex (cryptoController s')) = Some (scheme, key)"
    and inst: "\<forall>u \<in> set (wm_keyUpdates welcomeTwoKeys).
        \<exists>k. asymDecrypt exampleOps (fst (snd (snd u))) = Some k \<and>
          ciphers (cryptoController s') (fst u) = Some (fst (snd u), k)"
    and sent: "wm_keyUpdates welcomeTwoKeys \<noteq> [] \<or> sValue_sendCmac loggingInConnector \<longrightarrow>
        socket s' = Some ([] @ [serializeMessage exampleOps
          (MacUpdateMessage (keyIndex (cryptoController s')) (cmacTag exampleOps key key))]) \<and>
        sendCmac s' = Some True"
    by blast
  have two: "keyIndex (cryptoController s') = 2"
    using top by (simp add: welcomeTwoKeys_def)
  have k2: "ciphers (cryptoController s') 2 = Some (''AES'', ''k2'')"
    using inst by (simp add: welcomeTwoKeys_def exampleOps_def)
  have "key = ''k2''"
    using curkey two k2 by simp
  then have frame: "socket s' = Some [''MacUpdate:k2k2'']"
    using sent two by (simp add: welcomeTwoKeys_def exampleOps_def)
  show ?thesis
    using state cur sorted sock verified run two k2 frame by blast
qed

text \<open>
  The same model on an update that is not newer than the current key: the client holds
  key 5 and the \<open>Welcome\<close> brings key 3, with a cmac that verifies under key 5. The modelled
  \<open>decryptSecretKey\<close> keeps key 3 and leaves the current index at 5, above the highest index
  of the list; the \<open>MacUpdate\<close> carries the tag of key 5. What the crypto controller of the
  repository does with such an update is not in the files.
\<close>

lemma onWelcome_older_key_example:
  "eachVerifiedUnderPrecedingKey exampleOps (thisDeviceId olderKeyConnector) ''k5''
     (wm_keyUpdates welcomeOlderKey) \<and>
   (\<exists>s'. onWelcome exampleOps welcomeOlderKey olderKeyConnector = Return s' \<and>
      keyIndex (cryptoController s') = 5 \<and>
      Max (set (map fst (wm_keyUpdates welcomeOlderKey))) = 3 \<and>
      ciphers (cryptoController s') 3 = Some (''AES'', ''k3'') \<and>
      socket s' = Some [''MacUpdate:k5k5''])"
  by (simp add: onWelcome_def welcomeOlderKey_def olderKeyConnector_def loggingInConnector_def
      idleConnector_def exampleOps_def submitEvent_def verifyCmac_def decryptSecretKey_def
      keyIndex_def sValue_sendCmac_def sendKeyUpdate_def generateEncryptionKeyCmac_def
      sendMessage_def sendBinaryMessage_def Let_def)

end
